theory Spec2Isabelle
  imports Main "HOL-Library.Multiset" "HOL-Library.Sublist"
begin

section \<open>Data model (types.ts)\<close>

text \<open>
  The column types of \<^verbatim>\<open>ColumnType\<close>, in the order of the source.
\<close>

datatype ColumnType =
    Increments | BigIncrements | Integer | BigInteger | String | Text | Boolean
  | Date | Datetime | Timestamp | Time | Float | Double | Decimal | Binary
  | Json | Jsonb | Uuid | Enum

text \<open>
  \<^verbatim>\<open>defaultTo\<close> and \<^verbatim>\<open>onUpdate\<close> are declared \<^verbatim>\<open>any\<close>; the parser stores a string,
  an integer or a boolean there. On such primitives the strict comparison \<^verbatim>\<open>!==\<close> of
  the source is inequality of values.
\<close>

datatype Prim = PStr string | PNum int | PBool bool

text \<open>
  A column definition is an object whose fields, apart from \<^verbatim>\<open>type\<close>, are optional:
  \<open>None\<close> stands for an absent (\<^verbatim>\<open>undefined\<close>) field. The type-specific fields of
  the extended interfaces (\<^verbatim>\<open>maxLength\<close>, \<^verbatim>\<open>precision\<close>, \<^verbatim>\<open>scale\<close>, \<^verbatim>\<open>values\<close>) are
  read by the generator through \<^verbatim>\<open>as any\<close> on every definition, so they are fields of
  the one record.

  An object also has an order of its keys, the order in which they were written, which
  \<^verbatim>\<open>JSON.stringify\<close> follows. \<open>key_order\<close> lists the keys that come first, in their
  order; the fields it does not name follow in the order of the interface declarations.
  With \<open>key_order = []\<close> the object has its keys in the order of the declarations.
\<close>

record ColumnDefinition =
  ctype :: ColumnType
  primary :: "bool option"
  unique :: "bool option"
  nullable :: "bool option"
  required :: "bool option"
  defaultTo :: "Prim option"
  onUpdate :: "Prim option"
  index :: "bool option"
  comment :: "string option"
  maxLength :: "int option"
  precision :: "int option"
  scale :: "int option"
  values_of :: "string list option"
  key_order :: "string list"

text \<open>
  A schema is a JavaScript object used as a dictionary from column names to
  definitions. It is modelled by the list of its own entries in the order of
  \<^verbatim>\<open>Object.entries\<close>; the keys of an object are distinct.
\<close>

type_synonym SchemaDefinition = "(string \<times> ColumnDefinition) list"

text \<open>
  Reading \<^verbatim>\<open>schema[name]\<close> gives the definition stored under an own key, and for a
  name that is no own key the property that every object inherits from
  \<^verbatim>\<open>Object.prototype\<close>, if there is one of that name: a function, or the prototype
  itself for \<^verbatim>\<open>__proto__\<close>. Such a value is truthy and has none of the fields of a
  definition; the function \<^verbatim>\<open>Object\<close> found under \<^verbatim>\<open>constructor\<close> has a property
  \<^verbatim>\<open>values\<close>, itself a function. The differ stores what it reads as old definition
  of an operation, so the old definition of an operation is such a value.
\<close>

datatype OldValue = Definition ColumnDefinition | Inherited string

definition Object_prototype_names :: "string list" where
  "Object_prototype_names =
     [''constructor'', ''hasOwnProperty'', ''isPrototypeOf'', ''propertyIsEnumerable'',
      ''toLocaleString'', ''toString'', ''valueOf'', ''__proto__'', ''__defineGetter__'',
      ''__defineSetter__'', ''__lookupGetter__'', ''__lookupSetter__'']"

datatype AlterationType = Alter | Raw | Recreate

text \<open>
  The tagged union \<^verbatim>\<open>MigrationOperation\<close>; the first argument of every constructor is
  the table name, the second (where present) the column name.
\<close>

datatype MigrationOperation =
    CreateTable string SchemaDefinition
  | DropTable string
  | AddColumn string string ColumnDefinition
  | DropColumn string string "OldValue option"
  | AlterColumn string string ColumnDefinition "OldValue option" "AlterationType option"

section \<open>JSON rendering of a definition\<close>

text \<open>
  \<^verbatim>\<open>JSON.stringify\<close> renders an object as the sequence of its own fields that are
  not \<^verbatim>\<open>undefined\<close>, in the order of the keys of the object, each with its key and the
  rendering of its value. The text of a rendering determines this sequence and is
  determined by it, so the model compares the sequences.
\<close>

datatype json = JStr string | JNum int | JBool bool | JArr "json list"

fun type_name :: "ColumnType \<Rightarrow> string" where
  "type_name Increments = ''increments''"
| "type_name BigIncrements = ''bigIncrements''"
| "type_name Integer = ''integer''"
| "type_name BigInteger = ''bigInteger''"
| "type_name String = ''string''"
| "type_name Text = ''text''"
| "type_name Boolean = ''boolean''"
| "type_name Date = ''date''"
| "type_name Datetime = ''datetime''"
| "type_name Timestamp = ''timestamp''"
| "type_name Time = ''time''"
| "type_name Float = ''float''"
| "type_name Double = ''double''"
| "type_name Decimal = ''decimal''"
| "type_name Binary = ''binary''"
| "type_name Json = ''json''"
| "type_name Jsonb = ''jsonb''"
| "type_name Uuid = ''uuid''"
| "type_name Enum = ''enum''"

fun json_of_prim :: "Prim \<Rightarrow> json" where
  "json_of_prim (PStr s) = JStr s"
| "json_of_prim (PNum n) = JNum n"
| "json_of_prim (PBool b) = JBool b"

fun field :: "string \<Rightarrow> json option \<Rightarrow> (string \<times> json) list" where
  "field k None = []"
| "field k (Some v) = [(k, v)]"

definition stringify_values :: "string list option \<Rightarrow> json option" where
  "stringify_values vs = map_option (\<lambda>xs. JArr (map JStr xs)) vs"

text \<open>The keys of the interfaces, in the order of their declaration.\<close>

definition field_names :: "string list" where
  "field_names =
     [''type'', ''primary'', ''unique'', ''nullable'', ''required'', ''defaultTo'', ''onUpdate'',
      ''index'', ''comment'', ''maxLength'', ''precision'', ''scale'', ''values'']"

text \<open>The rendering of the value stored under a key, \<open>None\<close> when the field is absent.\<close>

definition field_value :: "ColumnDefinition \<Rightarrow> string \<Rightarrow> json option" where
  "field_value d k =
     (if k = ''type'' then Some (JStr (type_name (ctype d)))
      else if k = ''primary'' then map_option JBool (primary d)
      else if k = ''unique'' then map_option JBool (unique d)
      else if k = ''nullable'' then map_option JBool (nullable d)
      else if k = ''required'' then map_option JBool (required d)
      else if k = ''defaultTo'' then map_option json_of_prim (defaultTo d)
      else if k = ''onUpdate'' then map_option json_of_prim (onUpdate d)
      else if k = ''index'' then map_option JBool (index d)
      else if k = ''comment'' then map_option JStr (comment d)
      else if k = ''maxLength'' then map_option JNum (maxLength d)
      else if k = ''precision'' then map_option JNum (precision d)
      else if k = ''scale'' then map_option JNum (scale d)
      else if k = ''values'' then stringify_values (values_of d)
      else None)"

text \<open>
  The keys of the object in their order: those named by \<open>key_order\<close> first, each once,
  then the others in the order of the declarations.
\<close>

definition own_keys :: "ColumnDefinition \<Rightarrow> string list" where
  "own_keys d =
     (let listed = remdups (filter (\<lambda>k. k \<in> set field_names) (key_order d))
      in listed @ filter (\<lambda>k. k \<notin> set listed) field_names)"

definition JSON_stringify :: "ColumnDefinition \<Rightarrow> (string \<times> json) list" where
  "JSON_stringify d = concat (map (\<lambda>k. field k (field_value d k)) (own_keys d))"

section \<open>Schema differ and alteration classifier (MigrationGenerator.ts)\<close>

text \<open>
  \<^verbatim>\<open>hasColumnChanged\<close>: copy both definitions, delete \<^verbatim>\<open>comment\<close>, compare renderings.
  The copy \<^verbatim>\<open>{...oldDef}\<close> keeps the order of the keys. The copy of an inherited
  value has no fields (a function has no enumerable property of its own), and its
  rendering is the empty object.
\<close>

fun normalized :: "OldValue \<Rightarrow> (string \<times> json) list" where
  "normalized (Definition d) = JSON_stringify (d\<lparr>comment := None\<rparr>)"
| "normalized (Inherited name) = []"

definition hasColumnChanged :: "OldValue \<Rightarrow> ColumnDefinition \<Rightarrow> bool" where
  "hasColumnChanged oldDef newDef =
     (let normalizedOld = normalized oldDef;
          normalizedNew = normalized (Definition newDef)
      in normalizedOld \<noteq> normalizedNew)"

text \<open>
  \<^verbatim>\<open>x || d\<close> on an optional number: an absent field and the number 0 are both falsy
  and give the default.
\<close>

fun or_default :: "int option \<Rightarrow> int \<Rightarrow> int" where
  "or_default None d = d"
| "or_default (Some n) d = (if n = 0 then d else n)"

definition canUseAlterMethod :: "ColumnDefinition \<Rightarrow> ColumnDefinition \<Rightarrow> bool" where
  "canUseAlterMethod oldDef newDef =
     (if ctype oldDef \<noteq> ctype newDef then False
      else if ctype oldDef = String \<and> ctype newDef = String then
        (let oldLength = or_default (maxLength oldDef) 255;
             newLength = or_default (maxLength newDef) 255
         in newLength \<ge> oldLength)
      else if ctype oldDef = Decimal \<and> ctype newDef = Decimal then
        (let oldPrecision = or_default (precision oldDef) 8;
             newPrecision = or_default (precision newDef) 8;
             oldScale = or_default (scale oldDef) 2;
             newScale = or_default (scale newDef) 2
         in newPrecision \<ge> oldPrecision \<and> newScale \<ge> oldScale)
      else if nullable oldDef = Some False \<and> nullable newDef = Some True then True
      else if defaultTo oldDef \<noteq> defaultTo newDef \<and> ctype oldDef = ctype newDef then True
      else False)"

definition needsRawQuery :: "ColumnDefinition \<Rightarrow> ColumnDefinition \<Rightarrow> bool" where
  "needsRawQuery oldDef newDef =
     (let constraintChanges =
        [unique oldDef \<noteq> unique newDef,
         primary oldDef \<noteq> primary newDef,
         stringify_values (values_of oldDef) \<noteq> stringify_values (values_of newDef),
         nullable oldDef = Some True \<and> nullable newDef = Some False]
      in list_ex (\<lambda>changed. changed) constraintChanges)"

definition determineAlterationType :: "ColumnDefinition \<Rightarrow> ColumnDefinition \<Rightarrow> AlterationType" where
  "determineAlterationType oldDef newDef =
     (if canUseAlterMethod oldDef newDef then Alter
      else if needsRawQuery oldDef newDef then Raw
      else Recreate)"

text \<open>
  The same three functions when the old value is an inherited one. Every field read from
  it is \<^verbatim>\<open>undefined\<close>: its type differs from the type of the new definition, so
  \<^verbatim>\<open>canUseAlterMethod\<close> returns false at its first test; in \<^verbatim>\<open>needsRawQuery\<close> a
  flag of the new definition differs from it when it is present, and so does the
  rendering of \<^verbatim>\<open>values\<close> (the rendering of a function is \<^verbatim>\<open>undefined\<close> too).
\<close>

definition needsRawQuery_inherited :: "ColumnDefinition \<Rightarrow> bool" where
  "needsRawQuery_inherited newDef =
     (let constraintChanges =
        [None \<noteq> unique newDef,
         None \<noteq> primary newDef,
         None \<noteq> stringify_values (values_of newDef),
         False]
      in list_ex (\<lambda>changed. changed) constraintChanges)"

fun classify :: "OldValue \<Rightarrow> ColumnDefinition \<Rightarrow> AlterationType" where
  "classify (Definition oldDef) newDef = determineAlterationType oldDef newDef"
| "classify (Inherited name) newDef = (if needsRawQuery_inherited newDef then Raw else Recreate)"

text \<open>\<^verbatim>\<open>schema[name]\<close> on a schema object.\<close>

definition lookup :: "SchemaDefinition \<Rightarrow> string \<Rightarrow> OldValue option" where
  "lookup schema name =
     (case map_of schema name of
        Some d \<Rightarrow> Some (Definition d)
      | None \<Rightarrow> if name \<in> set Object_prototype_names then Some (Inherited name) else None)"

text \<open>
  The three loops of \<^verbatim>\<open>generateSchemaDiff\<close>, each appending to \<^verbatim>\<open>operations\<close>. A value
  read from a schema is tested for truthiness: it is falsy only when nothing is found.
\<close>

definition newColumns :: "string \<Rightarrow> SchemaDefinition \<Rightarrow> SchemaDefinition \<Rightarrow> MigrationOperation list" where
  "newColumns tableName oldSchema newSchema =
     concat (map (\<lambda>(columnName, definition).
       if lookup oldSchema columnName = None
       then [AddColumn tableName columnName definition] else []) newSchema)"

definition removedColumns :: "string \<Rightarrow> SchemaDefinition \<Rightarrow> SchemaDefinition \<Rightarrow> MigrationOperation list" where
  "removedColumns tableName oldSchema newSchema =
     concat (map (\<lambda>columnName.
       if lookup newSchema columnName = None
       then [DropColumn tableName columnName (lookup oldSchema columnName)] else [])
       (map fst oldSchema))"

definition alteredColumns :: "string \<Rightarrow> SchemaDefinition \<Rightarrow> SchemaDefinition \<Rightarrow> MigrationOperation list" where
  "alteredColumns tableName oldSchema newSchema =
     concat (map (\<lambda>(columnName, newDefinition).
       case lookup oldSchema columnName of
         None \<Rightarrow> []
       | Some oldDefinition \<Rightarrow>
           if hasColumnChanged oldDefinition newDefinition
           then [AlterColumn tableName columnName newDefinition (Some oldDefinition)
                   (Some (classify oldDefinition newDefinition))]
           else []) newSchema)"

definition generateSchemaDiff :: "string \<Rightarrow> SchemaDefinition \<Rightarrow> SchemaDefinition \<Rightarrow> MigrationOperation list" where
  "generateSchemaDiff tableName oldSchema newSchema =
     newColumns tableName oldSchema newSchema
   @ removedColumns tableName oldSchema newSchema
   @ alteredColumns tableName oldSchema newSchema"

text \<open>
  The round-trip property replays a diff on a schema. The source has no such function;
  the two replays below follow the words of the specification: forward, an added column
  is stored, a dropped column is removed and an altered column is replaced by its new
  definition; in reverse, the operations are undone last to first, an added column is removed,
  a dropped or altered column is set back to the retained old definition (an operation
  that retains no definition restores nothing). Schemas are compared as mappings, since
  the order of the columns carries no meaning.
\<close>

fun applyForward :: "(string \<rightharpoonup> ColumnDefinition) \<Rightarrow> MigrationOperation \<Rightarrow> (string \<rightharpoonup> ColumnDefinition)" where
  "applyForward m (AddColumn t c d) = m(c \<mapsto> d)"
| "applyForward m (DropColumn t c od) = m(c := None)"
| "applyForward m (AlterColumn t c d od a) = m(c \<mapsto> d)"
| "applyForward m (CreateTable t s) = m"
| "applyForward m (DropTable t) = m"

fun restore :: "OldValue option \<Rightarrow> string \<Rightarrow> (string \<rightharpoonup> ColumnDefinition) \<Rightarrow> (string \<rightharpoonup> ColumnDefinition)" where
  "restore (Some (Definition d)) c m = m(c \<mapsto> d)"
| "restore od c m = m"

fun applyReverse :: "MigrationOperation \<Rightarrow> (string \<rightharpoonup> ColumnDefinition) \<Rightarrow> (string \<rightharpoonup> ColumnDefinition)" where
  "applyReverse (AddColumn t c d) m = m(c := None)"
| "applyReverse (DropColumn t c od) m = restore od c m"
| "applyReverse (AlterColumn t c d od a) m = restore od c m"
| "applyReverse (CreateTable t s) m = m"
| "applyReverse (DropTable t) m = m"

definition replayForward :: "MigrationOperation list \<Rightarrow> (string \<rightharpoonup> ColumnDefinition) \<Rightarrow> (string \<rightharpoonup> ColumnDefinition)" where
  "replayForward ops m = foldl applyForward m ops"

definition replayReverse :: "MigrationOperation list \<Rightarrow> (string \<rightharpoonup> ColumnDefinition) \<Rightarrow> (string \<rightharpoonup> ColumnDefinition)" where
  "replayReverse ops m = foldr applyReverse ops m"

text \<open>
  What a replay reconstructs of a target definition \<open>tgt\<close> from a source definition
  \<open>src\<close> of the same column: the target, unless the differ finds the two unchanged, in
  which case the source stays.
\<close>

definition up_to_comment :: "ColumnDefinition option \<Rightarrow> ColumnDefinition option \<Rightarrow> ColumnDefinition option" where
  "up_to_comment src tgt =
     (case (src, tgt) of
        (Some a, Some b) \<Rightarrow> if hasColumnChanged (Definition a) b then Some b else Some a
      | (_, r) \<Rightarrow> r)"

text \<open>The object literal \<^verbatim>\<open>{ type: t }\<close>, the starting point of the example definitions.\<close>

definition baseColumn :: "ColumnType \<Rightarrow> ColumnDefinition" where
  "baseColumn t = \<lparr>ctype = t, primary = None, unique = None, nullable = None, required = None,
     defaultTo = None, onUpdate = None, index = None, comment = None, maxLength = None,
     precision = None, scale = None, values_of = None, key_order = []\<rparr>"

section \<open>Migration aggregator (MigrationParser.ts)\<close>


datatype AlterOperationType = addColumn | dropColumn | modifyColumn













text \<open>Code-unit order on file names, the order of \<^verbatim>\<open>localeCompare\<close> on names made of digits.\<close>

fun compare_code_units :: "string \<Rightarrow> string \<Rightarrow> int" where
  "compare_code_units [] [] = 0"
| "compare_code_units [] (y # ys) = - 1"
| "compare_code_units (x # xs) [] = 1"
| "compare_code_units (x # xs) (y # ys) =
     (if (of_char x :: nat) < of_char y then - 1
      else if (of_char y :: nat) < of_char x then 1
      else compare_code_units xs ys)"



section \<open>Migration text generator (MigrationGenerator.ts)\<close>

text \<open>
  Text is built from template literals. \<open>sq s\<close> is \<^verbatim>\<open>'${s}'\<close>, \<open>nl\<close> the line break
  inside a template, \<open>join\<close> is \<^verbatim>\<open>Array.prototype.join\<close>, \<open>includes_str\<close> is
  \<^verbatim>\<open>String.prototype.includes\<close> and \<open>show_int\<close> the decimal text of an integer.
\<close>

definition sq :: "string \<Rightarrow> string" where
  "sq s = CHR 0x27 # s @ [CHR 0x27]"

definition nl :: string where
  "nl = [CHR 0x0A]"

fun join :: "string \<Rightarrow> string list \<Rightarrow> string" where
  "join sep [] = []"
| "join sep [x] = x"
| "join sep (x # y # ys) = x @ sep @ join sep (y # ys)"

fun includes_str :: "string \<Rightarrow> string \<Rightarrow> bool" where
  "includes_str [] sub = (sub = [])"
| "includes_str (c # cs) sub = (take (length sub) (c # cs) = sub \<or> includes_str cs sub)"

definition digit_char :: "nat \<Rightarrow> char" where
  "digit_char n = char_of (48 + n)"

fun show_nat :: "nat \<Rightarrow> string" where
  "show_nat n = (if n < 10 then [digit_char n] else show_nat (n div 10) @ [digit_char (n mod 10)])"

definition show_int :: "int \<Rightarrow> string" where
  "show_int i = (if i < 0 then CHR ''-'' # show_nat (nat (- i)) else show_nat (nat i))"

text \<open>Truthiness of an optional flag and of an optional number.\<close>

definition is_set :: "bool option \<Rightarrow> bool" where
  "is_set b = (b = Some True)"

definition nonzero :: "int option \<Rightarrow> bool" where
  "nonzero n = (case n of None \<Rightarrow> False | Some i \<Rightarrow> i \<noteq> 0)"

text \<open>\<^verbatim>\<open>${v}\<close> for a value that is not a string.\<close>

fun show_prim :: "Prim \<Rightarrow> string" where
  "show_prim (PStr s) = s"
| "show_prim (PNum n) = show_int n"
| "show_prim (PBool b) = (if b then ''true'' else ''false'')"

text \<open>
  The \<^verbatim>\<open>switch\<close> of \<^verbatim>\<open>generateColumnBuilder\<close> on the column type. For a type without
  parameters the builder method has the name of the type.
\<close>

definition simple_builder :: "string \<Rightarrow> string \<Rightarrow> string" where
  "simple_builder method columnName = ''table.'' @ method @ ''('' @ sq columnName @ '')''"

fun base_builder :: "string \<Rightarrow> ColumnDefinition \<Rightarrow> string" where
  "base_builder columnName d =
     (case ctype d of
        String \<Rightarrow>
          (if nonzero (maxLength d)
           then ''table.string('' @ sq columnName @ '', '' @ show_int (the (maxLength d)) @ '')''
           else ''table.string('' @ sq columnName @ '')'')
      | Decimal \<Rightarrow>
          (if nonzero (precision d) \<and> nonzero (scale d)
           then ''table.decimal('' @ sq columnName @ '', '' @ show_int (the (precision d))
                  @ '', '' @ show_int (the (scale d)) @ '')''
           else ''table.decimal('' @ sq columnName @ '')'')
      | Enum \<Rightarrow>
          (case values_of d of
             Some vs \<Rightarrow> ''table.enum('' @ sq columnName @ '', ['' @ join '', '' (map sq vs) @ ''])''
           | None \<Rightarrow> ''table.string('' @ sq columnName @ '') // TODO: Define enum values'')
      | t \<Rightarrow> simple_builder (type_name t) columnName)"

text \<open>
  \<^verbatim>\<open>generateColumnBuilder\<close> is called with the definition of an operation and with its
  old definition. For an inherited value the \<^verbatim>\<open>switch\<close> takes its default branch, with
  the type \<^verbatim>\<open>undefined\<close>, and no modifier applies, since every field read is absent.
\<close>

definition generateColumnBuilder :: "string \<Rightarrow> OldValue \<Rightarrow> string \<Rightarrow> bool \<Rightarrow> string" where
  "generateColumnBuilder columnName definition_or_value indent isAlter =
     (case definition_or_value of
        Inherited name \<Rightarrow>
          indent @ ''table.string('' @ sq columnName @ '') // Unknown type: undefined''
          @ (if isAlter then ''.alter()'' else [])
      | Definition d \<Rightarrow>
          indent @ base_builder columnName d
          @ (if is_set (primary d) \<and> ctype d \<notin> {Increments, BigIncrements} then ''.primary()'' else [])
          @ (if is_set (unique d) then ''.unique()'' else [])
          @ (if is_set (nullable d) then ''.nullable()''
             else if is_set (required d) \<or> nullable d = Some False then ''.notNullable()''
             else [])
          @ (case defaultTo d of
               None \<Rightarrow> []
             | Some (PStr s) \<Rightarrow>
                 if s = ''now'' then ''.defaultTo(knex.fn.now())'' else ''.defaultTo('' @ sq s @ '')''
             | Some v \<Rightarrow> ''.defaultTo('' @ show_prim v @ '')'')
          @ (if is_set (index d) then ''.index()'' else [])
          @ (if isAlter then ''.alter()'' else []))"

text \<open>
  The recurring template
  \<^verbatim>\<open>await knex.schema.alterTable('T', (table) => {\<close>, line break and four spaces, the body,
  line break and two spaces, \<^verbatim>\<open>})\<close>.
\<close>

definition alterTable_block :: "string \<Rightarrow> string \<Rightarrow> string" where
  "alterTable_block tableName body =
     ''await knex.schema.alterTable('' @ sq tableName @ '', (table) => {'' @ nl
     @ ''    '' @ body @ nl @ ''  })''"

text \<open>
  \<^verbatim>\<open>JSON.stringify\<close> of a primitive, as text: a string is quoted, with the escapes of
  JSON for the quote, the backslash and the control characters.
\<close>

definition hex_digit :: "nat \<Rightarrow> char" where
  "hex_digit n = (if n < 10 then char_of (48 + n) else char_of (87 + n))"

definition escape_char :: "char \<Rightarrow> string" where
  "escape_char c =
     (let n = (of_char c :: nat) in
      if n = 8 then [CHR 0x5C, CHR ''b'']
      else if n = 9 then [CHR 0x5C, CHR ''t'']
      else if n = 10 then [CHR 0x5C, CHR ''n'']
      else if n = 12 then [CHR 0x5C, CHR ''f'']
      else if n = 13 then [CHR 0x5C, CHR ''r'']
      else if n = 34 then [CHR 0x5C, CHR 0x22]
      else if n = 92 then [CHR 0x5C, CHR 0x5C]
      else if n < 32 then [CHR 0x5C, CHR ''u'', CHR ''0'', CHR ''0'', hex_digit (n div 16), hex_digit (n mod 16)]
      else [c])"

fun JSON_text :: "Prim \<Rightarrow> string" where
  "JSON_text (PStr s) = CHR 0x22 # concat (map escape_char s) @ [CHR 0x22]"
| "JSON_text (PNum n) = show_int n"
| "JSON_text (PBool b) = (if b then ''true'' else ''false'')"

text \<open>\<^verbatim>\<open>newDef.defaultTo || ''\<close>: an absent, empty, zero or false default gives the empty string.\<close>

fun default_or_empty :: "Prim option \<Rightarrow> Prim" where
  "default_or_empty None = PStr []"
| "default_or_empty (Some (PStr s)) = PStr s"
| "default_or_empty (Some (PNum n)) = (if n = 0 then PStr [] else PNum n)"
| "default_or_empty (Some (PBool b)) = (if b then PBool b else PStr [])"

text \<open>
  Reading a field of an absent old definition throws, and so does calling a method that
  a value does not have; the exception is the only error of the generator.
\<close>

datatype error = TypeError

text \<open>
  \<^verbatim>\<open>generateRawAlterOperation\<close> is called with the old definition of an operation on
  either side. What it reads from a value: the flags \<^verbatim>\<open>unique\<close> and \<^verbatim>\<open>nullable\<close>, the
  default, and \<^verbatim>\<open>values\<close>: whether it is truthy, its rendering, and whether it is an
  array (the method \<^verbatim>\<open>map\<close> is called on the new one).
\<close>

fun read_unique :: "OldValue \<Rightarrow> bool option" where
  "read_unique (Definition d) = unique d"
| "read_unique (Inherited name) = None"

fun read_nullable :: "OldValue \<Rightarrow> bool option" where
  "read_nullable (Definition d) = nullable d"
| "read_nullable (Inherited name) = None"

fun read_defaultTo :: "OldValue \<Rightarrow> Prim option" where
  "read_defaultTo (Definition d) = defaultTo d"
| "read_defaultTo (Inherited name) = None"

fun has_values :: "OldValue \<Rightarrow> bool" where
  "has_values (Definition d) = (values_of d \<noteq> None)"
| "has_values (Inherited name) = (name = ''constructor'')"

fun rendered_values :: "OldValue \<Rightarrow> json option" where
  "rendered_values (Definition d) = stringify_values (values_of d)"
| "rendered_values (Inherited name) = None"

fun values_is_array :: "OldValue \<Rightarrow> bool" where
  "values_is_array (Definition d) = True"
| "values_is_array (Inherited name) = False"

definition generateRawAlterOperation :: "string \<Rightarrow> string \<Rightarrow> OldValue \<Rightarrow> OldValue \<Rightarrow> error + string" where
  "generateRawAlterOperation tableName columnName oldDef newDef =
     (if has_values oldDef \<and> has_values newDef
         \<and> rendered_values oldDef \<noteq> rendered_values newDef \<and> \<not> values_is_array newDef
      then Inl TypeError
      else
     (let operations =
        (if read_unique oldDef \<noteq> read_unique newDef then
           (if is_set (read_unique newDef)
            then [alterTable_block tableName (''table.unique(['' @ sq columnName @ ''])'')]
            else [''await knex.raw('' @ sq (''ALTER TABLE '' @ tableName @ '' DROP CONSTRAINT IF EXISTS ''
                    @ tableName @ ''_'' @ columnName @ ''_unique'') @ '')''])
         else [])
        @ (if read_nullable oldDef = Some True \<and> read_nullable newDef = Some False then
             [''// WARNING: Adding NOT NULL constraint - ensure no NULL values exist'' @ nl
              @ ''  await knex.raw('' @ sq (''UPDATE '' @ tableName @ '' SET '' @ columnName
                    @ '' = ? WHERE '' @ columnName @ '' IS NULL'')
              @ '', ['' @ JSON_text (default_or_empty (read_defaultTo newDef)) @ ''])'',
              ''await knex.raw('' @ sq (''ALTER TABLE '' @ tableName @ '' ALTER COLUMN ''
                    @ columnName @ '' SET NOT NULL'') @ '')'']
           else if read_nullable oldDef = Some False \<and> read_nullable newDef = Some True then
             [''await knex.raw('' @ sq (''ALTER TABLE '' @ tableName @ '' ALTER COLUMN ''
                    @ columnName @ '' DROP NOT NULL'') @ '')'']
           else [])
        @ (if has_values oldDef \<and> has_values newDef
              \<and> rendered_values oldDef \<noteq> rendered_values newDef then
             [''// WARNING: Changing enum values - ensure data compatibility'' @ nl
              @ ''  await knex.raw('' @ sq (''ALTER TABLE '' @ tableName @ '' ALTER COLUMN ''
                    @ columnName @ '' TYPE varchar(255)'') @ '')'',
              ''await knex.raw('' @ sq (''ALTER TABLE '' @ tableName @ '' ALTER COLUMN ''
                    @ columnName @ '' TYPE '' @ tableName @ ''_'' @ columnName @ ''_enum USING ''
                    @ columnName @ ''::'' @ tableName @ ''_'' @ columnName @ ''_enum'') @ '')'']
           else [])
      in Inr (join (nl @ ''  '')
           (if operations = [] then [''// No RAW operations needed for this change'']
            else operations))))"

datatype direction = Up | Down

fun tableName_of :: "MigrationOperation \<Rightarrow> string" where
  "tableName_of (CreateTable t s) = t"
| "tableName_of (DropTable t) = t"
| "tableName_of (AddColumn t c d) = t"
| "tableName_of (DropColumn t c od) = t"
| "tableName_of (AlterColumn t c d od a) = t"

fun generateMigrationOperation :: "MigrationOperation \<Rightarrow> direction \<Rightarrow> error + string" where
  "generateMigrationOperation (AddColumn t c d) Up =
     Inr (alterTable_block t (generateColumnBuilder c (Definition d) ''    '' False))"
| "generateMigrationOperation (AddColumn t c d) Down =
     Inr (alterTable_block t (''table.dropColumn('' @ sq c @ '')''))"
| "generateMigrationOperation (DropColumn t c od) Up =
     Inr (alterTable_block t (''table.dropColumn('' @ sq c @ '')''))"
| "generateMigrationOperation (DropColumn t c od) Down =
     (case od of
        Some oldDef \<Rightarrow> Inr (alterTable_block t (generateColumnBuilder c oldDef ''    '' False))
      | None \<Rightarrow> Inr (''// TODO: Add back column '' @ sq c @ '' with proper definition''))"
| "generateMigrationOperation (AlterColumn t c d od a) Up =
     (case (case a of None \<Rightarrow> Alter | Some alterType \<Rightarrow> alterType) of
        Alter \<Rightarrow> Inr (alterTable_block t (generateColumnBuilder c (Definition d) ''    '' True))
      | Raw \<Rightarrow>
          (case od of
             None \<Rightarrow> Inl TypeError
           | Some oldDef \<Rightarrow> generateRawAlterOperation t c oldDef (Definition d))
      | Recreate \<Rightarrow>
          Inr (''// WARNING: This operation may cause data loss - consider manual migration'' @ nl
               @ ''  '' @ alterTable_block t (''table.dropColumn('' @ sq c @ '')'') @ nl
               @ ''  '' @ alterTable_block t (generateColumnBuilder c (Definition d) ''    '' False)))"
| "generateMigrationOperation (AlterColumn t c d od a) Down =
     (case od of
        Some oldDef \<Rightarrow>
          (case (case a of None \<Rightarrow> Alter | Some alterType \<Rightarrow> alterType) of
             Alter \<Rightarrow> Inr (alterTable_block t (generateColumnBuilder c oldDef ''    '' True))
           | Raw \<Rightarrow> generateRawAlterOperation t c (Definition d) oldDef
           | Recreate \<Rightarrow> Inr (alterTable_block t (generateColumnBuilder c oldDef ''    '' True)))
      | None \<Rightarrow> Inr (''// TODO: Reverse alteration for column '' @ sq c))"
| "generateMigrationOperation (CreateTable t s) dir = Inr ''// Unknown operation: createTable''"
| "generateMigrationOperation (DropTable t) dir = Inr ''// Unknown operation: dropTable''"

text \<open>The callback of \<^verbatim>\<open>operations.map\<close> in \<^verbatim>\<open>generateGroupedAlterTable\<close>.\<close>

fun grouped_line :: "direction \<Rightarrow> MigrationOperation \<Rightarrow> string" where
  "grouped_line Up (AddColumn t c d) = generateColumnBuilder c (Definition d) ''    '' False"
| "grouped_line Down (AddColumn t c d) = ''table.dropColumn('' @ sq c @ '')''"
| "grouped_line Up (DropColumn t c od) = ''table.dropColumn('' @ sq c @ '')''"
| "grouped_line Down (DropColumn t c od) =
     (case od of
        Some oldDef \<Rightarrow> generateColumnBuilder c oldDef ''    '' False
      | None \<Rightarrow> ''// TODO: Add back column '' @ sq c @ '' with proper definition'')"
| "grouped_line Up (AlterColumn t c d od a) = generateColumnBuilder c (Definition d) ''    '' True"
| "grouped_line Down (AlterColumn t c d od a) =
     (case od of
        Some oldDef \<Rightarrow> generateColumnBuilder c oldDef ''    '' True
      | None \<Rightarrow> ''// TODO: Reverse alteration for column '' @ sq c)"
| "grouped_line dir (CreateTable t s) = ''// Unknown operation: createTable''"
| "grouped_line dir (DropTable t) = ''// Unknown operation: dropTable''"

definition generateGroupedAlterTable :: "string \<Rightarrow> MigrationOperation list \<Rightarrow> direction \<Rightarrow> string" where
  "generateGroupedAlterTable tableName operations dir =
     (let columnOperations =
            filter (\<lambda>op. \<not> includes_str op ''// TODO:'') (map (grouped_line dir) operations)
      in if length columnOperations = 0
         then ''// No valid operations for table '' @ sq tableName
         else ''await knex.schema.alterTable('' @ sq tableName @ '', (table) => {'' @ nl
              @ ''    '' @ join (nl @ ''    '') columnOperations @ nl @ ''  })'')"

definition canGroupOperations :: "MigrationOperation list \<Rightarrow> bool" where
  "canGroupOperations operations =
     list_all (\<lambda>op. case op of
         AddColumn t c d \<Rightarrow> True
       | DropColumn t c od \<Rightarrow> True
       | AlterColumn t c d od a \<Rightarrow> a = Some Alter \<or> a = None
       | _ \<Rightarrow> False) operations"

text \<open>
  The \<^verbatim>\<open>Map\<close> from table names to operation lists keeps its keys in the order of their
  first insertion; an operation goes to the end of the list of its table.
\<close>

fun push_operation :: "(string \<times> MigrationOperation list) list \<Rightarrow> MigrationOperation \<Rightarrow> (string \<times> MigrationOperation list) list" where
  "push_operation [] op = [(tableName_of op, [op])]"
| "push_operation ((t, ops) # groups) op =
     (if t = tableName_of op then (t, ops @ [op]) # groups
      else (t, ops) # push_operation groups op)"

record table_group =
  group_table :: string
  group_operations :: "MigrationOperation list"
  canGroup :: bool

definition groupOperationsByTable :: "MigrationOperation list \<Rightarrow> table_group list" where
  "groupOperationsByTable operations =
     map (\<lambda>(t, ops). \<lparr>group_table = t, group_operations = ops, canGroup = canGroupOperations ops\<rparr>)
       (foldl push_operation [] operations)"

text \<open>Collecting the results of a \<^verbatim>\<open>map\<close> whose callback may throw: the first exception wins.\<close>

fun collect :: "(error + 'a) list \<Rightarrow> error + 'a list" where
  "collect [] = Inr []"
| "collect (Inl e # rest) = Inl e"
| "collect (Inr x # rest) = (case collect rest of Inl e \<Rightarrow> Inl e | Inr xs \<Rightarrow> Inr (x # xs))"

text \<open>The two loops of \<^verbatim>\<open>generateAlterTableMigration\<close> over the groups.\<close>

definition group_up :: "table_group \<Rightarrow> error + string list" where
  "group_up g =
     (if canGroup g \<and> length (group_operations g) > 1
      then Inr [generateGroupedAlterTable (group_table g) (group_operations g) Up]
      else collect (map (\<lambda>op. generateMigrationOperation op Up) (group_operations g)))"

definition group_down :: "table_group \<Rightarrow> error + string list" where
  "group_down g =
     (if canGroup g \<and> length (group_operations g) > 1
      then (let reversedOps = rev (group_operations g)
            in Inr [generateGroupedAlterTable (group_table g) reversedOps Down])
      else (let reversedOps = rev (group_operations g)
            in collect (map (\<lambda>op. generateMigrationOperation op Down) reversedOps)))"

definition upOperations :: "table_group list \<Rightarrow> error + string list" where
  "upOperations tableGroups =
     (case collect (map group_up tableGroups) of Inl e \<Rightarrow> Inl e | Inr parts \<Rightarrow> Inr (concat parts))"

definition downOperations :: "table_group list \<Rightarrow> error + string list" where
  "downOperations tableGroups =
     (let reversedGroups = rev tableGroups
      in case collect (map group_down reversedGroups) of
           Inl e \<Rightarrow> Inl e | Inr parts \<Rightarrow> Inr (concat parts))"

definition generateAlterTableMigration :: "MigrationOperation list \<Rightarrow> string \<Rightarrow> error + string" where
  "generateAlterTableMigration operations migrationName =
     (if length operations = 0 then
        Inr (''import { Knex } from '' @ sq ''knex'' @ nl @ nl
             @ ''export async function up(knex: Knex): Promise<void> {'' @ nl
             @ ''  // No operations to perform'' @ nl @ ''}'' @ nl @ nl
             @ ''export async function down(knex: Knex): Promise<void> {'' @ nl
             @ ''  // No operations to reverse'' @ nl @ ''}'' @ nl)
      else
        (let tableGroups = groupOperationsByTable operations in
         case upOperations tableGroups of
           Inl e \<Rightarrow> Inl e
         | Inr ups \<Rightarrow>
             (case downOperations tableGroups of
                Inl e \<Rightarrow> Inl e
              | Inr downs \<Rightarrow>
                  Inr (''import { Knex } from '' @ sq ''knex'' @ nl @ nl
                       @ ''export async function up(knex: Knex): Promise<void> {'' @ nl
                       @ ''  '' @ join (nl @ nl @ ''  '') ups @ nl @ ''}'' @ nl @ nl
                       @ ''export async function down(knex: Knex): Promise<void> {'' @ nl
                       @ ''  '' @ join (nl @ nl @ ''  '') downs @ nl @ ''}'' @ nl))))"

text \<open>
  An operation whose reversal needs the old definition of the column and does not carry it.
\<close>

fun lacks_old :: "MigrationOperation \<Rightarrow> bool" where
  "lacks_old (DropColumn t c None) = True"
| "lacks_old (AlterColumn t c d None a) = True"
| "lacks_old op = False"

text \<open>Three operations on one table, the second of them classified raw.\<close>

definition example_mixed :: "MigrationOperation list" where
  "example_mixed =
     [AddColumn ''t'' ''a'' (baseColumn Integer),
      AlterColumn ''t'' ''b'' (baseColumn Integer\<lparr>unique := Some True\<rparr>)
        (Some (Definition (baseColumn Integer))) (Some Raw),
      AddColumn ''t'' ''c'' (baseColumn Text)]"

text \<open>
  The manual-action placeholder that stands for the reversal of an operation without old
  definition.
\<close>

fun placeholder :: "MigrationOperation \<Rightarrow> string" where
  "placeholder (DropColumn t c od) = ''// TODO: Add back column '' @ sq c @ '' with proper definition''"
| "placeholder (AlterColumn t c d od a) = ''// TODO: Reverse alteration for column '' @ sq c"
| "placeholder op = []"

text \<open>Every operation classified raw carries a definition as its old definition.\<close>

fun raw_has_definition :: "MigrationOperation \<Rightarrow> bool" where
  "raw_has_definition (AlterColumn t c d od (Some Raw)) =
     (case od of Some (Definition oldDef) \<Rightarrow> True | _ \<Rightarrow> False)"
| "raw_has_definition op = True"

text \<open>A group is emitted as one composite instruction.\<close>

definition batched :: "table_group \<Rightarrow> bool" where
  "batched g = (canGroup g \<and> length (group_operations g) > 1)"

text \<open>What a group contributes to the down operations when nothing throws.\<close>

definition down_part :: "table_group \<Rightarrow> string list" where
  "down_part g =
     (if batched g then [generateGroupedAlterTable (group_table g) (rev (group_operations g)) Down]
      else map (\<lambda>op. projr (generateMigrationOperation op Down)) (rev (group_operations g)))"

section \<open>Call extractor (MigrationParser.ts)\<close>



































section \<open>Verification: the differ and the classifier\<close>

subsection \<open>The JSON rendering determines the fields\<close>

lemma map_of_field_same [simp]: "map_of (field k v @ r) k = (case v of None \<Rightarrow> map_of r k | Some x \<Rightarrow> Some x)"
  by (cases v) auto
lemma map_of_field_other [simp]: "k \<noteq> k' \<Longrightarrow> map_of (field k v @ r) k' = map_of r k'"
  by (cases v) auto

lemma type_name_inj: "type_name a = type_name b \<Longrightarrow> a = b"
  by (cases a; cases b; simp)

lemma json_of_prim_inj: "json_of_prim a = json_of_prim b \<Longrightarrow> a = b"
  by (cases a; cases b; simp)

lemma stringify_values_inj: "stringify_values a = stringify_values b \<Longrightarrow> a = b"
  by (cases a; cases b; simp add: stringify_values_def inj_map_eq_map inj_def)

lemma map_of_rendered_keys:
  "distinct ks \<Longrightarrow>
   map_of (concat (map (\<lambda>k. field k (f k)) ks)) k = (if k \<in> set ks then f k else None)"
proof (induction ks)
  case Nil
  then show ?case by simp
next
  case (Cons a ks)
  then show ?case
    by (cases "f a") (auto simp del: map_of_append)
qed

lemma distinct_field_names: "distinct field_names"
  by (simp add: field_names_def)

lemma own_keys_distinct: "distinct (own_keys d)"
  unfolding own_keys_def Let_def using distinct_field_names by auto

lemma own_keys_set: "set (own_keys d) = set field_names"
  unfolding own_keys_def Let_def by auto

lemma field_value_other: "k \<notin> set field_names \<Longrightarrow> field_value d k = None"
  by (simp add: field_value_def field_names_def)

lemma JSON_stringify_lookup: "map_of (JSON_stringify d) k = field_value d k"
  unfolding JSON_stringify_def
  by (simp add: map_of_rendered_keys own_keys_distinct own_keys_set field_value_other
      del: map_of_append)

lemma JSON_stringify_fields:
  "map_of (JSON_stringify d) ''type'' = Some (JStr (type_name (ctype d)))"
  "map_of (JSON_stringify d) ''primary'' = map_option JBool (primary d)"
  "map_of (JSON_stringify d) ''unique'' = map_option JBool (unique d)"
  "map_of (JSON_stringify d) ''nullable'' = map_option JBool (nullable d)"
  "map_of (JSON_stringify d) ''required'' = map_option JBool (required d)"
  "map_of (JSON_stringify d) ''defaultTo'' = map_option json_of_prim (defaultTo d)"
  "map_of (JSON_stringify d) ''onUpdate'' = map_option json_of_prim (onUpdate d)"
  "map_of (JSON_stringify d) ''index'' = map_option JBool (index d)"
  "map_of (JSON_stringify d) ''comment'' = map_option JStr (comment d)"
  "map_of (JSON_stringify d) ''maxLength'' = map_option JNum (maxLength d)"
  "map_of (JSON_stringify d) ''precision'' = map_option JNum (precision d)"
  "map_of (JSON_stringify d) ''scale'' = map_option JNum (scale d)"
  "map_of (JSON_stringify d) ''values'' = stringify_values (values_of d)"
  by (simp_all add: JSON_stringify_lookup field_value_def)

lemma map_option_eq_iff:
  "map_option JBool x = map_option JBool y \<longleftrightarrow> x = y"
  "map_option JNum m = map_option JNum n \<longleftrightarrow> m = n"
  "map_option JStr s = map_option JStr t \<longleftrightarrow> s = t"
  "map_option json_of_prim p = map_option json_of_prim q \<longleftrightarrow> p = q"
     apply (cases x; cases y; simp)
    apply (cases m; cases n; simp)
   apply (cases s; cases t; simp)
  apply (cases p; cases q; auto dest: json_of_prim_inj)
  done

text \<open>Two definitions with the same rendering agree in every field; their key orders aside.\<close>

lemma JSON_stringify_inj:
  assumes "JSON_stringify a = JSON_stringify b"
  shows "a\<lparr>key_order := ko\<rparr> = b\<lparr>key_order := ko\<rparr>"
proof (rule ColumnDefinition.equality)
  have f: "\<And>k. map_of (JSON_stringify a) k = map_of (JSON_stringify b) k"
    using assms by simp
  show "ctype (a\<lparr>key_order := ko\<rparr>) = ctype (b\<lparr>key_order := ko\<rparr>)"
    using f[of "''type''"] by (simp add: JSON_stringify_fields type_name_inj)
  show "primary (a\<lparr>key_order := ko\<rparr>) = primary (b\<lparr>key_order := ko\<rparr>)"
    using f[of "''primary''"] by (simp add: JSON_stringify_fields map_option_eq_iff)
  show "unique (a\<lparr>key_order := ko\<rparr>) = unique (b\<lparr>key_order := ko\<rparr>)"
    using f[of "''unique''"] by (simp add: JSON_stringify_fields map_option_eq_iff)
  show "nullable (a\<lparr>key_order := ko\<rparr>) = nullable (b\<lparr>key_order := ko\<rparr>)"
    using f[of "''nullable''"] by (simp add: JSON_stringify_fields map_option_eq_iff)
  show "required (a\<lparr>key_order := ko\<rparr>) = required (b\<lparr>key_order := ko\<rparr>)"
    using f[of "''required''"] by (simp add: JSON_stringify_fields map_option_eq_iff)
  show "defaultTo (a\<lparr>key_order := ko\<rparr>) = defaultTo (b\<lparr>key_order := ko\<rparr>)"
    using f[of "''defaultTo''"]
    by (simp add: JSON_stringify_fields map_option_eq_iff)
  show "onUpdate (a\<lparr>key_order := ko\<rparr>) = onUpdate (b\<lparr>key_order := ko\<rparr>)"
    using f[of "''onUpdate''"]
    by (simp add: JSON_stringify_fields map_option_eq_iff)
  show "index (a\<lparr>key_order := ko\<rparr>) = index (b\<lparr>key_order := ko\<rparr>)"
    using f[of "''index''"] by (simp add: JSON_stringify_fields map_option_eq_iff)
  show "comment (a\<lparr>key_order := ko\<rparr>) = comment (b\<lparr>key_order := ko\<rparr>)"
    using f[of "''comment''"] by (simp add: JSON_stringify_fields map_option_eq_iff)
  show "maxLength (a\<lparr>key_order := ko\<rparr>) = maxLength (b\<lparr>key_order := ko\<rparr>)"
    using f[of "''maxLength''"] by (simp add: JSON_stringify_fields map_option_eq_iff)
  show "precision (a\<lparr>key_order := ko\<rparr>) = precision (b\<lparr>key_order := ko\<rparr>)"
    using f[of "''precision''"] by (simp add: JSON_stringify_fields map_option_eq_iff)
  show "scale (a\<lparr>key_order := ko\<rparr>) = scale (b\<lparr>key_order := ko\<rparr>)"
    using f[of "''scale''"] by (simp add: JSON_stringify_fields map_option_eq_iff)
  show "values_of (a\<lparr>key_order := ko\<rparr>) = values_of (b\<lparr>key_order := ko\<rparr>)"
    using f[of "''values''"] by (simp add: JSON_stringify_fields stringify_values_inj)
qed simp_all

lemma unchanged_fields:
  assumes "\<not> hasColumnChanged (Definition a) b"
  shows "a\<lparr>comment := c, key_order := ko\<rparr> = b\<lparr>comment := c, key_order := ko\<rparr>"
proof -
  from assms have "JSON_stringify (a\<lparr>comment := None\<rparr>) = JSON_stringify (b\<lparr>comment := None\<rparr>)"
    by (simp add: hasColumnChanged_def)
  then have "a\<lparr>comment := None, key_order := ko\<rparr> = b\<lparr>comment := None, key_order := ko\<rparr>"
    by (rule JSON_stringify_inj)
  then show ?thesis by (cases a; cases b) simp
qed

lemma hasColumnChanged_same: "\<not> hasColumnChanged (Definition d) d"
  by (simp add: hasColumnChanged_def)

lemma hasColumnChanged_inherited: "hasColumnChanged (Inherited n) d"
proof -
  have "map_of (JSON_stringify (d\<lparr>comment := None\<rparr>)) ''type'' \<noteq> map_of [] ''type''"
    by (simp add: JSON_stringify_fields)
  then show ?thesis unfolding hasColumnChanged_def Let_def normalized.simps by metis
qed

subsection \<open>Alteration classifier\<close>

lemmas classifier_defs = determineAlterationType_def canUseAlterMethod_def needsRawQuery_def

lemma unique_flip_other_types:
  "ctype d \<noteq> String \<Longrightarrow> ctype d \<noteq> Decimal \<Longrightarrow> unique d \<noteq> Some True \<Longrightarrow>
   determineAlterationType d (d\<lparr>unique := Some True\<rparr>) = Raw"
  by (simp add: classifier_defs)

text \<open>
  Claim C3: a definition whose \<^verbatim>\<open>unique\<close> flag flips from absent or false to true,
  all else equal, is classified raw for every column type, string and decimal included.
  The code does so for the other types (lemma \<open>unique_flip_other_types\<close>), but for a
  string and for a decimal column the size comparison returns first and the change is
  classified alter: evaluated here on a string column of length 255 and on a decimal
  column, next to an integer column.
\<close>

theorem unique_flip_string_decimal:
  "determineAlterationType (baseColumn String\<lparr>maxLength := Some 255\<rparr>)
      (baseColumn String\<lparr>maxLength := Some 255, unique := Some True\<rparr>) = Alter
   \<and> determineAlterationType (baseColumn Decimal\<lparr>unique := Some False\<rparr>)
      (baseColumn Decimal\<lparr>unique := Some True\<rparr>) = Alter
   \<and> determineAlterationType (baseColumn Integer) (baseColumn Integer\<lparr>unique := Some True\<rparr>) = Raw"
  by (simp add: classifier_defs baseColumn_def)

text \<open>
  Loosening the nullability of a string column while shortening it is classified
  recreate, not alter.
\<close>

theorem nullable_loosened_counterexample:
  "determineAlterationType (baseColumn String\<lparr>maxLength := Some 500, nullable := Some False\<rparr>)
      (baseColumn String\<lparr>maxLength := Some 255, nullable := Some True\<rparr>) = Recreate"
  by (simp add: classifier_defs baseColumn_def stringify_values_def)

text \<open>
  Claim C4, as amended: when the types are identical and nullability is loosened from
  false to true, the change is classified alter for every type other than string and
  decimal; for a string column exactly when the new length (255 when absent or 0) is not
  below the old one, and for a decimal column exactly when neither precision nor scale
  (8 and 2 when absent or 0) decreases.
\<close>

theorem nullable_loosened:
  assumes "ctype oldDef = ctype newDef"
    and "nullable oldDef = Some False" and "nullable newDef = Some True"
  shows "determineAlterationType oldDef newDef = Alter \<longleftrightarrow>
     (ctype oldDef = String \<longrightarrow>
        or_default (maxLength newDef) 255 \<ge> or_default (maxLength oldDef) 255) \<and>
     (ctype oldDef = Decimal \<longrightarrow>
        or_default (precision newDef) 8 \<ge> or_default (precision oldDef) 8 \<and>
        or_default (scale newDef) 2 \<ge> or_default (scale oldDef) 2)"
  using assms by (auto simp: classifier_defs Let_def)

theorem nullable_loosened_witness:
  "determineAlterationType (baseColumn Text\<lparr>nullable := Some False\<rparr>)
      (baseColumn Text\<lparr>nullable := Some True\<rparr>) = Alter
   \<and> determineAlterationType (baseColumn String\<lparr>maxLength := Some 255, nullable := Some False\<rparr>)
      (baseColumn String\<lparr>maxLength := Some 500, nullable := Some True\<rparr>) = Alter"
  using nullable_loosened [of "baseColumn Text\<lparr>nullable := Some False\<rparr>" "baseColumn Text\<lparr>nullable := Some True\<rparr>"]
    nullable_loosened [of "baseColumn String\<lparr>maxLength := Some 255, nullable := Some False\<rparr>"
       "baseColumn String\<lparr>maxLength := Some 500, nullable := Some True\<rparr>"]
  by (simp add: baseColumn_def)

text \<open>
  A length of 0 is read as the default 255: the increase from 0 to 100 is classified
  recreate and the decrease from 100 to 0 alter.
\<close>

theorem string_length_counterexample:
  "determineAlterationType (baseColumn String\<lparr>maxLength := Some 0\<rparr>)
      (baseColumn String\<lparr>maxLength := Some 100\<rparr>) = Recreate
   \<and> determineAlterationType (baseColumn String\<lparr>maxLength := Some 100\<rparr>)
      (baseColumn String\<lparr>maxLength := Some 0\<rparr>) = Alter"
  by (simp add: classifier_defs baseColumn_def stringify_values_def)

text \<open>
  Claim C5, as amended: for two string definitions identical in every field except
  \<^verbatim>\<open>maxLength\<close>, both lengths present and not 0, an increase is classified alter and
  a decrease recreate.
\<close>

theorem string_length_change:
  assumes "ctype d = String" and "maxLength d = Some a" and "a \<noteq> 0" and "b \<noteq> 0"
  shows "(a < b \<longrightarrow> determineAlterationType d (d\<lparr>maxLength := Some b\<rparr>) = Alter) \<and>
         (b < a \<longrightarrow> determineAlterationType d (d\<lparr>maxLength := Some b\<rparr>) = Recreate)"
  using assms by (auto simp: classifier_defs Let_def)

theorem string_length_change_witness:
  "determineAlterationType (baseColumn String\<lparr>maxLength := Some 255\<rparr>)
      (baseColumn String\<lparr>maxLength := Some 500\<rparr>) = Alter
   \<and> determineAlterationType (baseColumn String\<lparr>maxLength := Some 500\<rparr>)
      (baseColumn String\<lparr>maxLength := Some 255\<rparr>) = Recreate"
  using string_length_change [of "baseColumn String\<lparr>maxLength := Some 255\<rparr>" 255 500]
    string_length_change [of "baseColumn String\<lparr>maxLength := Some 500\<rparr>" 500 255]
  by (simp add: baseColumn_def)

text \<open>
  A new length of 0, or a new scale of 0, counts as the default and is classified alter
  although it is below 255, respectively below 2.
\<close>

theorem size_defaults_counterexample:
  "determineAlterationType (baseColumn String) (baseColumn String\<lparr>maxLength := Some 0\<rparr>) = Alter
   \<and> \<not> (0::int) \<ge> 255
   \<and> determineAlterationType (baseColumn Decimal)
        (baseColumn Decimal\<lparr>precision := Some 10, scale := Some 0\<rparr>) = Alter
   \<and> \<not> ((10::int) \<ge> 8 \<and> (0::int) \<ge> 2)"
  by (simp add: classifier_defs baseColumn_def)

text \<open>
  Claim C10, as amended: the classifier treats a string definition without
  \<^verbatim>\<open>maxLength\<close> like one of length 255, on either side of the comparison, and a decimal
  definition without precision and scale like one of precision 8 and scale 2.
  Consequently, when the old string definition has no length and the new one the length
  \<open>n\<close>, not 0, the change is classified alter exactly when \<open>n\<close> is at least 255; and
  when the old decimal definition has neither field and the new one has precision \<open>p\<close>
  and scale \<open>s\<close>, neither 0, exactly when \<open>p\<close> is at least 8 and \<open>s\<close> at least 2.
\<close>

theorem size_defaults:
  "(ctype d = String \<and> maxLength d = None \<longrightarrow>
      determineAlterationType d e = determineAlterationType (d\<lparr>maxLength := Some 255\<rparr>) e \<and>
      determineAlterationType e d = determineAlterationType e (d\<lparr>maxLength := Some 255\<rparr>) \<and>
      (n \<noteq> 0 \<longrightarrow>
        (determineAlterationType d (d\<lparr>maxLength := Some n\<rparr>) = Alter \<longleftrightarrow> n \<ge> 255))) \<and>
   (ctype d = Decimal \<and> precision d = None \<and> scale d = None \<longrightarrow>
      determineAlterationType d e =
        determineAlterationType (d\<lparr>precision := Some 8, scale := Some 2\<rparr>) e \<and>
      determineAlterationType e d =
        determineAlterationType e (d\<lparr>precision := Some 8, scale := Some 2\<rparr>) \<and>
      (p \<noteq> 0 \<and> s \<noteq> 0 \<longrightarrow>
        (determineAlterationType d (d\<lparr>precision := Some p, scale := Some s\<rparr>) = Alter
           \<longleftrightarrow> p \<ge> 8 \<and> s \<ge> 2)))"
  by (auto simp: classifier_defs Let_def)

theorem size_defaults_witness:
  "determineAlterationType (baseColumn String) (baseColumn String\<lparr>maxLength := Some 500\<rparr>) = Alter
   \<and> determineAlterationType (baseColumn String) (baseColumn String\<lparr>maxLength := Some 100\<rparr>) \<noteq> Alter
   \<and> determineAlterationType (baseColumn Decimal)
        (baseColumn Decimal\<lparr>precision := Some 10, scale := Some 4\<rparr>) = Alter"
  using size_defaults [of "baseColumn String" "baseColumn String" 500 1 1]
    size_defaults [of "baseColumn String" "baseColumn String" 100 1 1]
    size_defaults [of "baseColumn Decimal" "baseColumn Decimal" 1 10 4]
  by (simp add: baseColumn_def)

subsection \<open>Schema differ\<close>

lemma lookup_own: "map_of S k = Some d \<Longrightarrow> lookup S k = Some (Definition d)"
  by (simp add: lookup_def)

lemma lookup_key: "(k, d) \<in> set S \<Longrightarrow> lookup S k \<noteq> None"
proof -
  assume "(k, d) \<in> set S"
  then obtain x where "map_of S k = Some x" using weak_map_of_SomeI by fastforce
  then show ?thesis by (simp add: lookup_def)
qed

lemma lookup_plain:
  "k \<notin> set Object_prototype_names \<Longrightarrow> lookup S k = map_option Definition (map_of S k)"
  by (simp add: lookup_def split: option.splits)

lemma newColumns_same: "newColumns t S S = []"
  unfolding newColumns_def using lookup_key by (fastforce split: prod.splits)

lemma removedColumns_same: "removedColumns t S S = []"
  unfolding removedColumns_def using lookup_key by (fastforce split: prod.splits)

lemma alteredColumns_same:
  assumes "distinct (map fst S)"
  shows "alteredColumns t S S = []"
proof -
  have "lookup S k = Some (Definition d)" if "(k, d) \<in> set S" for k d
    using that assms by (simp add: lookup_own)
  then show ?thesis
    unfolding alteredColumns_def by (auto simp: hasColumnChanged_same split: prod.splits)
qed

text \<open>
  Claim C2: the diff of a schema with itself is the empty list of operations.
\<close>

theorem diff_same_empty: "distinct (map fst S) \<Longrightarrow> generateSchemaDiff t S S = []"
  by (simp add: generateSchemaDiff_def newColumns_same removedColumns_same alteredColumns_same)

theorem diff_same_empty_witness:
  "generateSchemaDiff ''users''
     [(''id'', baseColumn Increments\<lparr>primary := Some True\<rparr>),
      (''name'', baseColumn String\<lparr>maxLength := Some 255, required := Some True\<rparr>)]
     [(''id'', baseColumn Increments\<lparr>primary := Some True\<rparr>),
      (''name'', baseColumn String\<lparr>maxLength := Some 255, required := Some True\<rparr>)] = []"
  using diff_same_empty [of "[(''id'', baseColumn Increments\<lparr>primary := Some True\<rparr>),
      (''name'', baseColumn String\<lparr>maxLength := Some 255, required := Some True\<rparr>)]" "''users''"]
  by simp

subsection \<open>Replaying a diff\<close>

lemma replayForward_append: "replayForward (xs @ ys) m = replayForward ys (replayForward xs m)"
  by (simp add: replayForward_def)

lemma replayReverse_append: "replayReverse (xs @ ys) m = replayReverse xs (replayReverse ys m)"
  by (simp add: replayReverse_def)

lemma forward_new:
  "distinct (map fst xs) \<Longrightarrow>
   replayForward (concat (map (\<lambda>(c, d). if P c then [AddColumn t c d] else []) xs)) m k =
     (if P k \<and> map_of xs k \<noteq> None then map_of xs k else m k)"
proof (induction xs arbitrary: m)
  case Nil
  then show ?case by (simp add: replayForward_def)
next
  case (Cons x xs)
  obtain c d where x: "x = (c, d)" by (cases x)
  have nk: "map_of xs c = None" using Cons.prems x by (simp add: map_of_eq_None_iff)
  show ?case using Cons nk unfolding x
    by (auto simp: replayForward_def)
qed

lemma forward_removed:
  "replayForward (concat (map (\<lambda>c. if P c then [DropColumn t c (f c)] else []) ks)) m k =
     (if P k \<and> k \<in> set ks then None else m k)"
proof (induction ks arbitrary: m)
  case Nil
  then show ?case by (simp add: replayForward_def)
next
  case (Cons c ks)
  then show ?case by (auto simp: replayForward_def)
qed

lemma forward_altered:
  "distinct (map fst xs) \<Longrightarrow>
   replayForward (concat (map (\<lambda>(c, d). case old c of None \<Rightarrow> [] | Some od \<Rightarrow>
       if Q od d then [AlterColumn t c d (Some od) (Some (g od d))] else []) xs)) m k =
     (case (old k, map_of xs k) of
        (Some od, Some d) \<Rightarrow> if Q od d then Some d else m k
      | _ \<Rightarrow> m k)"
proof (induction xs arbitrary: m)
  case Nil
  then show ?case by (simp add: replayForward_def split: option.splits)
next
  case (Cons x xs)
  obtain c d where x: "x = (c, d)" by (cases x)
  have nk: "map_of xs c = None" using Cons.prems x by (simp add: map_of_eq_None_iff)
  show ?case using Cons nk unfolding x
    by (auto simp: replayForward_def split: option.splits)
qed

lemma forward_newColumns:
  "distinct (map fst S2) \<Longrightarrow>
   replayForward (newColumns t S1 S2) m k =
     (if lookup S1 k = None \<and> map_of S2 k \<noteq> None then map_of S2 k else m k)"
  unfolding newColumns_def by (rule forward_new)

lemma forward_removedColumns:
  "replayForward (removedColumns t S1 S2) m k =
     (if lookup S2 k = None \<and> k \<in> set (map fst S1) then None else m k)"
  unfolding removedColumns_def by (rule forward_removed)

lemma forward_alteredColumns:
  "distinct (map fst S2) \<Longrightarrow>
   replayForward (alteredColumns t S1 S2) m k =
     (case (lookup S1 k, map_of S2 k) of
        (Some od, Some d) \<Rightarrow> if hasColumnChanged od d then Some d else m k
      | _ \<Rightarrow> m k)"
  unfolding alteredColumns_def by (rule forward_altered)

lemma hasColumnChanged_sym: "hasColumnChanged (Definition a) b = hasColumnChanged (Definition b) a"
  by (auto simp: hasColumnChanged_def)

lemma reverse_new:
  "replayReverse (concat (map (\<lambda>(c, d). if P c then [AddColumn t c d] else []) xs)) m k =
     (if P k \<and> k \<in> fst ` set xs then None else m k)"
  by (induction xs) (force simp: replayReverse_def)+

lemma restore_apply:
  "restore od c m k =
     (if k = c then (case od of Some (Definition d) \<Rightarrow> Some d | _ \<Rightarrow> m k) else m k)"
  by (cases "(od, c, m)" rule: restore.cases) auto

lemma reverse_removed:
  "replayReverse (concat (map (\<lambda>c. if P c then [DropColumn t c (f c)] else []) ks)) m k =
     (if P k \<and> k \<in> set ks then (case f k of Some (Definition d) \<Rightarrow> Some d | _ \<Rightarrow> m k)
      else m k)"
proof (induction ks)
  case Nil
  then show ?case by (simp add: replayReverse_def)
next
  case (Cons c ks)
  then show ?case
    by (auto simp: replayReverse_def restore_apply split: option.splits OldValue.splits)
qed

lemma reverse_altered:
  "distinct (map fst xs) \<Longrightarrow>
   replayReverse (concat (map (\<lambda>(c, d). case old c of None \<Rightarrow> [] | Some od \<Rightarrow>
       if Q od d then [AlterColumn t c d (Some od) (Some (g od d))] else []) xs)) m k =
     (case (old k, map_of xs k) of
        (Some (Definition x), Some d) \<Rightarrow> if Q (Definition x) d then Some x else m k
      | _ \<Rightarrow> m k)"
proof (induction xs)
  case Nil
  then show ?case by (simp add: replayReverse_def split: option.splits OldValue.splits)
next
  case (Cons x xs)
  obtain c d where x: "x = (c, d)" by (cases x)
  have nk: "map_of xs c = None" using Cons.prems x by (simp add: map_of_eq_None_iff)
  show ?case using Cons nk unfolding x
    by (auto simp: replayReverse_def restore_apply split: option.splits OldValue.splits)
qed

lemma reverse_newColumns:
  "replayReverse (newColumns t S1 S2) m k =
     (if lookup S1 k = None \<and> k \<in> fst ` set S2 then None else m k)"
  unfolding newColumns_def by (rule reverse_new)

lemma reverse_removedColumns:
  "replayReverse (removedColumns t S1 S2) m k =
     (if lookup S2 k = None \<and> k \<in> set (map fst S1)
      then (case lookup S1 k of Some (Definition d) \<Rightarrow> Some d | _ \<Rightarrow> m k)
      else m k)"
  unfolding removedColumns_def by (rule reverse_removed)

lemma reverse_alteredColumns:
  "distinct (map fst S2) \<Longrightarrow>
   replayReverse (alteredColumns t S1 S2) m k =
     (case (lookup S1 k, map_of S2 k) of
        (Some (Definition x), Some d) \<Rightarrow> if hasColumnChanged (Definition x) d then Some x else m k
      | _ \<Rightarrow> m k)"
  unfolding alteredColumns_def by (rule reverse_altered)

lemma forward_roundtrip:
  assumes "distinct (map fst S2)"
    and "\<forall>n\<in>set Object_prototype_names. n \<notin> fst ` set S1 \<and> n \<notin> fst ` set S2"
  shows "replayForward (generateSchemaDiff t S1 S2) (map_of S1) k
         = up_to_comment (map_of S1 k) (map_of S2 k)"
proof -
  have keys: "k \<in> set (map fst S1) \<longleftrightarrow> map_of S1 k \<noteq> None"
    by (simp add: map_of_eq_None_iff)
  note unfold = generateSchemaDiff_def replayForward_append
      forward_alteredColumns [OF assms(1)] forward_removedColumns forward_newColumns [OF assms(1)]
      up_to_comment_def
  show ?thesis
  proof (cases "k \<in> set Object_prototype_names")
    case True
    then have "map_of S1 k = None" "map_of S2 k = None"
      using assms(2) by (simp_all add: map_of_eq_None_iff)
    then show ?thesis unfolding unfold using keys
      by (simp split: option.splits OldValue.splits)
  next
    case False
    then show ?thesis
      unfolding unfold lookup_plain [OF False] using keys
      by (cases "map_of S1 k"; cases "map_of S2 k"; simp)
  qed
qed

lemma reverse_roundtrip:
  assumes "distinct (map fst S2)"
    and "\<forall>n\<in>set Object_prototype_names. n \<notin> fst ` set S1 \<and> n \<notin> fst ` set S2"
  shows "replayReverse (generateSchemaDiff t S1 S2) (map_of S2) k
         = up_to_comment (map_of S2 k) (map_of S1 k)"
proof -
  have keys: "k \<in> set (map fst S1) \<longleftrightarrow> map_of S1 k \<noteq> None"
    "k \<in> fst ` set S2 \<longleftrightarrow> map_of S2 k \<noteq> None"
    by (simp_all add: map_of_eq_None_iff)
  note unfold = generateSchemaDiff_def replayReverse_append
      reverse_alteredColumns [OF assms(1)] reverse_removedColumns reverse_newColumns
      up_to_comment_def
  show ?thesis
  proof (cases "k \<in> set Object_prototype_names")
    case True
    then have "map_of S1 k = None" "map_of S2 k = None"
      using assms(2) by (simp_all add: map_of_eq_None_iff)
    then show ?thesis unfolding unfold using keys
      by (simp split: option.splits OldValue.splits)
  next
    case False
    show ?thesis
    proof (cases "map_of S1 k")
      case None
      then show ?thesis
        unfolding unfold lookup_plain [OF False] using keys
        by (cases "map_of S2 k") simp_all
    next
      case (Some a)
      show ?thesis
      proof (cases "map_of S2 k")
        case None
        then show ?thesis
          unfolding unfold lookup_plain [OF False] using keys Some by simp
      next
        case (Some b)
        then show ?thesis
          unfolding unfold lookup_plain [OF False] using keys \<open>map_of S1 k = Some a\<close>
          by (simp add: hasColumnChanged_sym [of b a])
      qed
    qed
  qed
qed

text \<open>
  Claim C1, as amended: for schemas none of whose columns has a name that every object
  inherits, replaying the forward operations of the diff on the old schema reconstructs
  the new schema, and replaying the reverse operations on the new schema reconstructs
  the old one, up to the comment: a column present in both schemas whose definitions
  have the same JSON text once the comment is removed gets no operation and keeps the
  definition of the schema the replay started from, which agrees with the other one in
  every field but the comment; every other column is reconstructed exactly.
\<close>

theorem diff_roundtrip_up_to_comment:
  assumes "distinct (map fst S1)" and "distinct (map fst S2)"
    and "\<forall>n\<in>set Object_prototype_names. n \<notin> fst ` set S1 \<and> n \<notin> fst ` set S2"
  shows "replayForward (generateSchemaDiff t S1 S2) (map_of S1) k
           = up_to_comment (map_of S1 k) (map_of S2 k)
       \<and> replayReverse (generateSchemaDiff t S1 S2) (map_of S2) k
           = up_to_comment (map_of S2 k) (map_of S1 k)
       \<and> (\<not> hasColumnChanged (Definition a) b \<longrightarrow>
            a\<lparr>comment := c, key_order := ko\<rparr> = b\<lparr>comment := c, key_order := ko\<rparr>)"
  using assms unchanged_fields [where a = a and b = b and c = c and ko = ko]
  by (simp add: forward_roundtrip reverse_roundtrip)

text \<open>
  A column that differs in its comment only yields no operation, so the replay on the old
  schema does not give the new one. Neither does the removal of a column whose name every
  object inherits: the differ finds the name in the new schema and emits no operation.
\<close>

theorem diff_roundtrip_counterexample:
  "replayForward
     (generateSchemaDiff ''t'' [(''a'', baseColumn Text\<lparr>comment := Some ''x''\<rparr>)]
        [(''a'', baseColumn Text)])
     (map_of [(''a'', baseColumn Text\<lparr>comment := Some ''x''\<rparr>)])
   \<noteq> map_of [(''a'', baseColumn Text)]
   \<and> replayForward
     (generateSchemaDiff ''t'' [(''constructor'', baseColumn Text)] [])
     (map_of [(''constructor'', baseColumn Text)])
   \<noteq> map_of []"
proof -
  have "generateSchemaDiff ''t'' [(''a'', baseColumn Text\<lparr>comment := Some ''x''\<rparr>)]
        [(''a'', baseColumn Text)] = []"
    by (simp add: generateSchemaDiff_def newColumns_def removedColumns_def alteredColumns_def
        lookup_def hasColumnChanged_def baseColumn_def)
  moreover have "map_of [(''a'', baseColumn Text\<lparr>comment := Some ''x''\<rparr>)] ''a''
     \<noteq> map_of [(''a'', baseColumn Text)] ''a''"
    by (simp add: baseColumn_def)
  ultimately have first: "replayForward
     (generateSchemaDiff ''t'' [(''a'', baseColumn Text\<lparr>comment := Some ''x''\<rparr>)]
        [(''a'', baseColumn Text)])
     (map_of [(''a'', baseColumn Text\<lparr>comment := Some ''x''\<rparr>)])
   \<noteq> map_of [(''a'', baseColumn Text)]"
    by (metis replayForward_def foldl_Nil)
  have "generateSchemaDiff ''t'' [(''constructor'', baseColumn Text)] [] = []"
    by code_simp
  moreover have "map_of [(''constructor'', baseColumn Text)] ''constructor''
     \<noteq> map_of [] ''constructor''"
    by simp
  ultimately have second: "replayForward
     (generateSchemaDiff ''t'' [(''constructor'', baseColumn Text)] [])
     (map_of [(''constructor'', baseColumn Text)])
   \<noteq> map_of []"
    by (metis replayForward_def foldl_Nil)
  show ?thesis using first second by simp
qed

lemma example_names_not_inherited:
  "\<forall>n\<in>set Object_prototype_names.
     n \<notin> fst ` set [(''a'', x), (''b'', y)] \<and> n \<notin> fst ` set [(''a'', z), (''c'', w)]"
  by (simp add: Object_prototype_names_def)

theorem diff_roundtrip_up_to_comment_witness:
  "replayForward
     (generateSchemaDiff ''t'' [(''a'', baseColumn Text), (''b'', baseColumn Integer)]
        [(''a'', baseColumn String), (''c'', baseColumn Integer)])
     (map_of [(''a'', baseColumn Text), (''b'', baseColumn Integer)]) ''a''
   = Some (baseColumn String)
   \<and> replayReverse
     (generateSchemaDiff ''t'' [(''a'', baseColumn Text), (''b'', baseColumn Integer)]
        [(''a'', baseColumn String), (''c'', baseColumn Integer)])
     (map_of [(''a'', baseColumn String), (''c'', baseColumn Integer)]) ''a''
   = Some (baseColumn Text)"
proof -
  have changed: "hasColumnChanged (Definition (baseColumn Text)) (baseColumn String)"
    "hasColumnChanged (Definition (baseColumn String)) (baseColumn Text)"
    using unchanged_fields [where a = "baseColumn Text" and b = "baseColumn String" and c = None and ko = "[]"]
      unchanged_fields [where a = "baseColumn String" and b = "baseColumn Text" and c = None and ko = "[]"]
    by (auto simp: baseColumn_def)
  show ?thesis
    using diff_roundtrip_up_to_comment [where ?S1.0 = "[(''a'', baseColumn Text), (''b'', baseColumn Integer)]"
      and ?S2.0 = "[(''a'', baseColumn String), (''c'', baseColumn Integer)]" and t = "''t''" and k = "''a''"
      and a = "baseColumn Text" and b = "baseColumn Text" and c = None and ko = "[]"]
      example_names_not_inherited changed
    by (simp add: up_to_comment_def)
qed

text \<open>
  The differ follows the order of the keys: two definitions with the same fields in
  another order have different JSON texts, and the column is altered. A column added
  under a name that every object inherits is found in the old schema, and is altered
  from the inherited value.
\<close>

lemma diff_reordered_keys:
  "generateSchemaDiff ''t''
     [(''a'', baseColumn Text\<lparr>unique := Some True, required := Some True,
                key_order := [''type'', ''unique'', ''required'']\<rparr>)]
     [(''a'', baseColumn Text\<lparr>unique := Some True, required := Some True,
                key_order := [''type'', ''required'', ''unique'']\<rparr>)]
   = [AlterColumn ''t'' ''a''
        (baseColumn Text\<lparr>unique := Some True, required := Some True,
                key_order := [''type'', ''required'', ''unique'']\<rparr>)
        (Some (Definition (baseColumn Text\<lparr>unique := Some True, required := Some True,
                key_order := [''type'', ''unique'', ''required'']\<rparr>)))
        (Some Recreate)]"
  by code_simp

lemma diff_inherited_name:
  "generateSchemaDiff ''t'' [] [(''constructor'', baseColumn Text)]
     = [AlterColumn ''t'' ''constructor'' (baseColumn Text) (Some (Inherited ''constructor''))
          (Some Recreate)]"
  by code_simp

section \<open>Verification: the aggregator\<close>


















lemma compare_code_units_le:
  "compare_code_units x y \<le> 0 \<longleftrightarrow>
     (case (x, y) of
        ([], _) \<Rightarrow> True
      | (a # as, []) \<Rightarrow> False
      | (a # as, b # bs) \<Rightarrow> (of_char a :: nat) < of_char b
           \<or> ((of_char a :: nat) = of_char b \<and> compare_code_units as bs \<le> 0))"
  by (cases x; cases y) auto




section \<open>Verification: the text generator\<close>

lemma push_same_table:
  "\<forall>op\<in>set ops. tableName_of op = t \<Longrightarrow>
   foldl push_operation [(t, acc)] ops = [(t, acc @ ops)]"
  by (induction ops arbitrary: acc) simp_all

lemma groups_single_table:
  assumes "ops \<noteq> []" and "\<forall>op\<in>set ops. tableName_of op = t"
  shows "groupOperationsByTable ops =
     [\<lparr>group_table = t, group_operations = ops, canGroup = canGroupOperations ops\<rparr>]"
proof -
  obtain op rest where ops: "ops = op # rest" using assms(1) by (cases ops) auto
  have "foldl push_operation [] ops = foldl push_operation [(t, [op])] rest"
    using assms(2) by (simp add: ops)
  also have "\<dots> = [(t, [op] @ rest)]"
    using assms(2) by (intro push_same_table) (simp add: ops)
  finally show ?thesis by (simp add: groupOperationsByTable_def ops)
qed

lemma upOperations_single: "upOperations [g] = group_up g"
  by (cases "group_up g") (simp_all add: upOperations_def)

lemma downOperations_single: "downOperations [g] = group_down g"
  by (cases "group_down g") (simp_all add: downOperations_def)

lemma canGroupOperations_iff:
  "canGroupOperations ops \<longleftrightarrow>
     (\<forall>op\<in>set ops. (\<exists>t c d. op = AddColumn t c d) \<or> (\<exists>t c od. op = DropColumn t c od)
        \<or> (\<exists>t c d od. op = AlterColumn t c d od (Some Alter) \<or> op = AlterColumn t c d od None))"
  unfolding canGroupOperations_def list_all_iff
  by (intro ball_cong refl) (auto split: MigrationOperation.splits)

text \<open>
  Claim C8, as amended: the operations of one table are emitted as a single composite
  \<^verbatim>\<open>alterTable\<close> instruction exactly when there are at least two of them and every one
  is an \<^verbatim>\<open>addColumn\<close>, a \<^verbatim>\<open>dropColumn\<close> or an \<^verbatim>\<open>alterColumn\<close> whose alteration type
  is alter or absent. Otherwise, in particular when one operation is raw or recreate, no
  batch is formed: every operation of the table, the safe ones too, is emitted as a
  standalone instruction, in the order of the operations going up and in the reverse
  order going down.
\<close>

theorem batch_all_or_nothing:
  assumes "ops \<noteq> []" and "\<forall>op\<in>set ops. tableName_of op = t"
  shows "upOperations (groupOperationsByTable ops) =
           (if canGroupOperations ops \<and> 1 < length ops
            then Inr [generateGroupedAlterTable t ops Up]
            else collect (map (\<lambda>op. generateMigrationOperation op Up) ops))
       \<and> downOperations (groupOperationsByTable ops) =
           (if canGroupOperations ops \<and> 1 < length ops
            then Inr [generateGroupedAlterTable t (rev ops) Down]
            else collect (map (\<lambda>op. generateMigrationOperation op Down) (rev ops)))
       \<and> (canGroupOperations ops \<longleftrightarrow>
           (\<forall>op\<in>set ops. (\<exists>t c d. op = AddColumn t c d) \<or> (\<exists>t c od. op = DropColumn t c od)
              \<or> (\<exists>t c d od. op = AlterColumn t c d od (Some Alter)
                    \<or> op = AlterColumn t c d od None)))"
proof (intro conjI)
  note g = groups_single_table [OF assms]
  show "upOperations (groupOperationsByTable ops) =
           (if canGroupOperations ops \<and> 1 < length ops
            then Inr [generateGroupedAlterTable t ops Up]
            else collect (map (\<lambda>op. generateMigrationOperation op Up) ops))"
    by (simp add: g upOperations_single group_up_def)
  show "downOperations (groupOperationsByTable ops) =
           (if canGroupOperations ops \<and> 1 < length ops
            then Inr [generateGroupedAlterTable t (rev ops) Down]
            else collect (map (\<lambda>op. generateMigrationOperation op Down) (rev ops)))"
    by (simp add: g downOperations_single group_down_def)
  show "canGroupOperations ops \<longleftrightarrow>
           (\<forall>op\<in>set ops. (\<exists>t c d. op = AddColumn t c d) \<or> (\<exists>t c od. op = DropColumn t c od)
              \<or> (\<exists>t c d od. op = AlterColumn t c d od (Some Alter)
                    \<or> op = AlterColumn t c d od None))"
    by (rule canGroupOperations_iff)
qed

lemma includes_prefix: "includes_str (p @ r) p"
proof (cases "p @ r")
  case Nil
  then show ?thesis by simp
next
  case (Cons a list)
  have "take (length p) (p @ r) = p" by simp
  then show ?thesis unfolding Cons by simp
qed

lemma todo_line: "lacks_old op \<Longrightarrow> includes_str (grouped_line Down op) ''// TODO:''"
proof (cases op)
  case (DropColumn t c od)
  assume "lacks_old op"
  then have "od = None" using DropColumn by (cases od) simp_all
  then show ?thesis
    using includes_prefix [of "''// TODO:''" "'' Add back column '' @ sq c @ '' with proper definition''"]
    by (simp add: DropColumn)
next
  case (AlterColumn t c d od a)
  assume "lacks_old op"
  then have "od = None" using AlterColumn by (cases od) simp_all
  then show ?thesis
    using includes_prefix [of "''// TODO:''" "'' Reverse alteration for column '' @ sq c"]
    by (simp add: AlterColumn)
qed simp_all

lemma filter_lines:
  "filter (\<lambda>l. \<not> includes_str l ''// TODO:'') (map (grouped_line Down) (filter (\<lambda>op. \<not> lacks_old op) ops))
   = filter (\<lambda>l. \<not> includes_str l ''// TODO:'') (map (grouped_line Down) ops)"
  by (induction ops) (simp_all add: todo_line)

text \<open>
  With a raw alteration between two added columns, the two additions are emitted as
  standalone instructions and not as a batch.
\<close>

theorem batch_counterexample:
  "upOperations (groupOperationsByTable example_mixed)
     = Inr [alterTable_block ''t'' (''    table.integer('' @ sq ''a'' @ '')''),
            alterTable_block ''t'' (''table.unique(['' @ sq ''b'' @ ''])''),
            alterTable_block ''t'' (''    table.text('' @ sq ''c'' @ '')'')]
   \<and> generateGroupedAlterTable ''t''
        [AddColumn ''t'' ''a'' (baseColumn Integer), AddColumn ''t'' ''c'' (baseColumn Text)] Up
      \<notin> set [alterTable_block ''t'' (''    table.integer('' @ sq ''a'' @ '')''),
            alterTable_block ''t'' (''table.unique(['' @ sq ''b'' @ ''])''),
            alterTable_block ''t'' (''    table.text('' @ sq ''c'' @ '')'')]"
  by (simp add: example_mixed_def groupOperationsByTable_def upOperations_def group_up_def
      canGroupOperations_def generateGroupedAlterTable_def generateRawAlterOperation_def
      generateColumnBuilder_def alterTable_block_def simple_builder_def baseColumn_def
      is_set_def sq_def nl_def stringify_values_def)


theorem batch_all_or_nothing_witness:
  "upOperations (groupOperationsByTable
      [AddColumn ''t'' ''a'' (baseColumn Integer), DropColumn ''t'' ''b'' (Some (Definition (baseColumn Text)))])
   = Inr [generateGroupedAlterTable ''t''
      [AddColumn ''t'' ''a'' (baseColumn Integer), DropColumn ''t'' ''b'' (Some (Definition (baseColumn Text)))] Up]
   \<and> downOperations (groupOperationsByTable example_mixed)
     = collect (map (\<lambda>op. generateMigrationOperation op Down) (rev example_mixed))"
  using batch_all_or_nothing [of "[AddColumn ''t'' ''a'' (baseColumn Integer),
      DropColumn ''t'' ''b'' (Some (Definition (baseColumn Text)))]" "''t''"]
    batch_all_or_nothing [of example_mixed "''t''"]
  by (simp add: example_mixed_def canGroupOperations_def)

subsection \<open>Operations without old definition\<close>


lemma includes_iff: "includes_str s p \<longleftrightarrow> (\<exists>a b. s = a @ p @ b)"
proof (induction s)
  case Nil
  then show ?case by auto
next
  case (Cons c cs)
  show ?case
  proof
    assume "includes_str (c # cs) p"
    then consider "take (length p) (c # cs) = p" | "includes_str cs p" by auto
    then show "\<exists>a b. c # cs = a @ p @ b"
    proof cases
      case 1
      then have "c # cs = [] @ p @ drop (length p) (c # cs)"
        by (metis append_Nil append_take_drop_id)
      then show ?thesis by blast
    next
      case 2
      then obtain a b where "cs = a @ p @ b" using Cons by blast
      then have "c # cs = (c # a) @ p @ b" by simp
      then show ?thesis by blast
    qed
  next
    assume "\<exists>a b. c # cs = a @ p @ b"
    then obtain a b where ab: "c # cs = a @ p @ b" by blast
    show "includes_str (c # cs) p"
    proof (cases a)
      case Nil
      then have "take (length p) (c # cs) = p" using ab by simp
      then show ?thesis by simp
    next
      case (Cons x a')
      then have "cs = a' @ p @ b" using ab by simp
      then have "includes_str cs p" using Cons.IH by blast
      then show ?thesis by simp
    qed
  qed
qed

lemma join_includes: "x \<in> set xs \<Longrightarrow> \<exists>a b. join sep xs = a @ x @ b"
proof (induction sep xs rule: join.induct)
  case (1 sep)
  then show ?case by simp
next
  case (2 sep y)
  then have "join sep [y] = [] @ x @ []" by simp
  then show ?case by blast
next
  case (3 sep y z zs)
  show ?case
  proof (cases "x = y")
    case True
    then have "join sep (y # z # zs) = [] @ x @ (sep @ join sep (z # zs))" by simp
    then show ?thesis by blast
  next
    case False
    then have "x \<in> set (z # zs)" using "3.prems" by simp
    then obtain a b where "join sep (z # zs) = a @ x @ b" using "3.IH" by blast
    then have "join sep (y # z # zs) = (y @ sep @ a) @ x @ b" by simp
    then show ?thesis by blast
  qed
qed

lemma collect_all_Inr:
  "\<forall>x\<in>set xs. \<exists>y. f x = Inr y \<Longrightarrow> collect (map f xs) = Inr (map (\<lambda>x. projr (f x)) xs)"
proof (induction xs)
  case Nil
  then show ?case by simp
next
  case (Cons x xs)
  then obtain y where "f x = Inr y" by auto
  then show ?case using Cons by simp
qed

lemma raw_ok:
  "\<exists>s. generateRawAlterOperation t c (Definition x) (Definition d) = Inr s"
  by (simp add: generateRawAlterOperation_def)

lemma operation_up_ok:
  "raw_has_definition op \<Longrightarrow> \<exists>s. generateMigrationOperation op Up = Inr s"
proof (induction op rule: raw_has_definition.induct)
  case (1 t c d od)
  then obtain x where "od = Some (Definition x)"
    by (auto split: option.splits OldValue.splits)
  then show ?case using raw_ok by simp
qed (auto split: AlterationType.splits option.splits)

lemma operation_down_ok:
  "raw_has_definition op \<Longrightarrow> \<exists>s. generateMigrationOperation op Down = Inr s"
proof (induction op rule: raw_has_definition.induct)
  case (1 t c d od)
  then obtain x where "od = Some (Definition x)"
    by (auto split: option.splits OldValue.splits)
  then show ?case using raw_ok by simp
qed (auto split: AlterationType.splits option.splits intro: raw_ok)

lemma operation_down_placeholder:
  "lacks_old op \<Longrightarrow> generateMigrationOperation op Down = Inr (placeholder op)"
  by (induction op rule: lacks_old.induct) simp_all


lemma push_operation_members:
  "(\<Union>g\<in>set (push_operation gs op). set (snd g)) = (\<Union>g\<in>set gs. set (snd g)) \<union> {op}"
  by (induction gs op rule: push_operation.induct) auto

lemma grouped_members:
  "(\<Union>g\<in>set (foldl push_operation gs ops). set (snd g)) = (\<Union>g\<in>set gs. set (snd g)) \<union> set ops"
  by (induction ops arbitrary: gs) (auto simp: push_operation_members)

lemma groups_cover:
  "(\<Union>g\<in>set (groupOperationsByTable ops). set (group_operations g)) = set ops"
proof -
  have "(\<Union>g\<in>set (groupOperationsByTable ops). set (group_operations g))
      = (\<Union>g\<in>set (foldl push_operation [] ops). set (snd g))"
    unfolding groupOperationsByTable_def by (auto split: prod.splits)
  then show ?thesis using grouped_members [of "[]" ops] by simp
qed

lemma group_up_ok:
  "\<forall>op\<in>set (group_operations g). raw_has_definition op \<Longrightarrow> \<exists>xs. group_up g = Inr xs"
  unfolding group_up_def using collect_all_Inr [of "group_operations g" "\<lambda>op. generateMigrationOperation op Up"]
  by (simp add: operation_up_ok)

lemma group_down_part:
  "\<forall>op\<in>set (group_operations g). raw_has_definition op \<Longrightarrow> group_down g = Inr (down_part g)"
  unfolding group_down_def down_part_def batched_def Let_def
  using collect_all_Inr [of "rev (group_operations g)" "\<lambda>op. generateMigrationOperation op Down"]
  by (simp add: operation_down_ok)

lemma upOperations_ok:
  assumes "\<forall>g\<in>set gs. \<forall>op\<in>set (group_operations g). raw_has_definition op"
  shows "\<exists>ups. upOperations gs = Inr ups"
proof -
  have "collect (map group_up gs) = Inr (map (\<lambda>g. projr (group_up g)) gs)"
    using assms group_up_ok by (intro collect_all_Inr) blast
  then show ?thesis by (simp add: upOperations_def)
qed

lemma downOperations_parts:
  assumes "\<forall>g\<in>set gs. \<forall>op\<in>set (group_operations g). raw_has_definition op"
  shows "downOperations gs = Inr (concat (map down_part (rev gs)))"
proof -
  have "\<forall>g\<in>set (rev gs). \<exists>y. group_down g = Inr y"
    using assms group_down_part by auto
  then have "collect (map group_down (rev gs)) = Inr (map (\<lambda>g. projr (group_down g)) (rev gs))"
    by (rule collect_all_Inr)
  moreover have "map (\<lambda>g. projr (group_down g)) (rev gs) = map down_part (rev gs)"
    using assms group_down_part by (intro map_cong) auto
  ultimately show ?thesis by (simp add: downOperations_def)
qed

lemma grouped_without_lacking:
  "generateGroupedAlterTable t (rev (filter (\<lambda>op. \<not> lacks_old op) ops)) Down
     = generateGroupedAlterTable t (rev ops) Down"
  using filter_lines [of "rev ops"] by (simp add: generateGroupedAlterTable_def rev_filter)

lemma migration_text:
  assumes "ops \<noteq> []" and "upOperations (groupOperationsByTable ops) = Inr ups"
    and "downOperations (groupOperationsByTable ops) = Inr downs"
  shows "\<exists>text. generateAlterTableMigration ops name = Inr text
           \<and> (\<forall>s\<in>set downs. includes_str text s)"
proof -
  let ?text = "''import { Knex } from '' @ sq ''knex'' @ nl @ nl
                       @ ''export async function up(knex: Knex): Promise<void> {'' @ nl
                       @ ''  '' @ join (nl @ nl @ ''  '') ups @ nl @ ''}'' @ nl @ nl
                       @ ''export async function down(knex: Knex): Promise<void> {'' @ nl
                       @ ''  '' @ join (nl @ nl @ ''  '') downs @ nl @ ''}'' @ nl"
  have t: "generateAlterTableMigration ops name = Inr ?text"
    using assms by (simp add: generateAlterTableMigration_def)
  have "includes_str ?text s" if mem: "s \<in> set downs" for s
  proof -
    obtain a b where "join (nl @ nl @ ''  '') downs = a @ s @ b"
      using join_includes [OF mem] by blast
    then have "?text = (''import { Knex } from '' @ sq ''knex'' @ nl @ nl
                       @ ''export async function up(knex: Knex): Promise<void> {'' @ nl
                       @ ''  '' @ join (nl @ nl @ ''  '') ups @ nl @ ''}'' @ nl @ nl
                       @ ''export async function down(knex: Knex): Promise<void> {'' @ nl
                       @ ''  '' @ a) @ s @ (b @ nl @ ''}'' @ nl)"
      by simp
    then show ?thesis unfolding includes_iff by blast
  qed
  then show ?thesis using t by blast
qed

text \<open>
  Claim C9, as amended: when every alteration classified raw carries its old definition,
  the generation of the migration does not fail, whatever other old definitions are
  absent: the up and the down operations and the text of the migration are produced. For
  a table whose operations are emitted one by one, every \<open>dropColumn\<close> and every
  \<open>alterColumn\<close> without old definition has its manual-action placeholder among the
  down operations and in the text of the migration. For a table whose operations are
  batched, the composite down instruction is the one of the group without the operations
  that lack their old definition: their placeholders are filtered out. Every operation
  belongs to one of the groups.
\<close>

theorem missing_old_definition:
  assumes "\<forall>op\<in>set ops. raw_has_definition op"
  shows "\<exists>ups downs text.
           upOperations (groupOperationsByTable ops) = Inr ups
         \<and> downOperations (groupOperationsByTable ops) = Inr downs
         \<and> generateAlterTableMigration ops name = Inr text
         \<and> (\<forall>g\<in>set (groupOperationsByTable ops).
              if batched g
              then generateGroupedAlterTable (group_table g)
                     (rev (filter (\<lambda>op. \<not> lacks_old op) (group_operations g))) Down \<in> set downs
              else \<forall>op\<in>set (group_operations g). lacks_old op \<longrightarrow>
                     placeholder op \<in> set downs \<and> includes_str text (placeholder op))
         \<and> (\<Union>g\<in>set (groupOperationsByTable ops). set (group_operations g)) = set ops"
proof -
  let ?gs = "groupOperationsByTable ops"
  have all: "\<forall>g\<in>set ?gs. \<forall>op\<in>set (group_operations g). raw_has_definition op"
    using assms groups_cover [of ops] by blast
  obtain ups where ups: "upOperations ?gs = Inr ups" using upOperations_ok [OF all] by blast
  define downs where "downs = concat (map down_part (rev ?gs))"
  have downs: "downOperations ?gs = Inr downs"
    unfolding downs_def by (rule downOperations_parts [OF all])
  have part: "set (down_part g) \<subseteq> set downs" if "g \<in> set ?gs" for g
    using that unfolding downs_def by auto
  have b: "generateGroupedAlterTable (group_table g)
             (rev (filter (\<lambda>op. \<not> lacks_old op) (group_operations g))) Down \<in> set downs"
    if "g \<in> set ?gs" "batched g" for g
    using part [OF that(1)] that(2) by (simp add: down_part_def grouped_without_lacking)
  have p: "placeholder op \<in> set downs"
    if "g \<in> set ?gs" "\<not> batched g" "op \<in> set (group_operations g)" "lacks_old op" for g op
  proof -
    have "projr (generateMigrationOperation op Down) \<in> set (down_part g)"
      using that by (simp add: down_part_def)
    then show ?thesis using part [OF that(1)] operation_down_placeholder [OF that(4)] by auto
  qed
  show ?thesis
  proof (cases "ops = []")
    case True
    then have "?gs = []" by (simp add: groupOperationsByTable_def)
    moreover have "\<exists>text. generateAlterTableMigration ops name = Inr text"
      using True by (simp add: generateAlterTableMigration_def)
    ultimately show ?thesis using ups downs True by auto
  next
    case False
    obtain out where out: "generateAlterTableMigration ops name = Inr out"
      and inc: "\<forall>s\<in>set downs. includes_str out s"
      using migration_text [OF False ups downs] by blast
    have "\<forall>g\<in>set ?gs.
              if batched g
              then generateGroupedAlterTable (group_table g)
                     (rev (filter (\<lambda>op. \<not> lacks_old op) (group_operations g))) Down \<in> set downs
              else \<forall>op\<in>set (group_operations g). lacks_old op \<longrightarrow>
                     placeholder op \<in> set downs \<and> includes_str out (placeholder op)"
      using b p inc by auto
    then show ?thesis using ups downs out groups_cover [of ops] by blast
  qed
qed


text \<open>
  The claim as stated fails on the batched path, where the down instruction of a group
  with a \<open>dropColumn\<close> without old definition holds no placeholder; and the generation
  fails for an alteration classified raw that has no old definition, whose up instruction
  reads the fields of the absent definition.
\<close>

theorem missing_old_definition_counterexample:
  "downOperations (groupOperationsByTable
      [DropColumn ''t'' ''a'' None, AddColumn ''t'' ''b'' (baseColumn Integer)])
     = Inr [alterTable_block ''t'' (''table.dropColumn('' @ sq ''b'' @ '')'')]
   \<and> \<not> includes_str (alterTable_block ''t'' (''table.dropColumn('' @ sq ''b'' @ '')'')) ''// TODO:''
   \<and> generateAlterTableMigration
        [AlterColumn ''t'' ''a'' (baseColumn Integer\<lparr>unique := Some True\<rparr>) None (Some Raw)] ''m''
     = Inl TypeError"
  by (simp add: groupOperationsByTable_def downOperations_def upOperations_def group_down_def
      group_up_def canGroupOperations_def generateGroupedAlterTable_def alterTable_block_def
      generateAlterTableMigration_def sq_def nl_def)

theorem missing_old_definition_witness:
  "(\<exists>out. generateAlterTableMigration
            [AlterColumn ''t'' ''a'' (baseColumn Integer\<lparr>unique := Some True\<rparr>)
               (Some (Definition (baseColumn Integer))) (Some Raw),
             DropColumn ''t'' ''b'' None] ''m'' = Inr out
        \<and> includes_str out (''// TODO: Add back column '' @ sq ''b'' @ '' with proper definition''))
   \<and> (\<exists>downs. downOperations (groupOperationsByTable
            [DropColumn ''t'' ''a'' None, AddColumn ''t'' ''b'' (baseColumn Integer)]) = Inr downs
        \<and> generateGroupedAlterTable ''t'' [AddColumn ''t'' ''b'' (baseColumn Integer)] Down
            \<in> set downs)"
proof -
  let ?raw = "AlterColumn ''t'' ''a'' (baseColumn Integer\<lparr>unique := Some True\<rparr>)
               (Some (Definition (baseColumn Integer))) (Some Raw)"
  let ?ops1 = "[?raw, DropColumn ''t'' ''b'' None]"
  let ?ops2 = "[DropColumn ''t'' ''a'' None, AddColumn ''t'' ''b'' (baseColumn Integer)]"
  let ?g1 = "\<lparr>group_table = ''t'', group_operations = ?ops1, canGroup = False\<rparr>"
  let ?g2 = "\<lparr>group_table = ''t'', group_operations = ?ops2, canGroup = True\<rparr>"
  have g1: "groupOperationsByTable ?ops1 = [?g1]"
    by (simp add: groupOperationsByTable_def canGroupOperations_def)
  have g2: "groupOperationsByTable ?ops2 = [?g2]"
    by (simp add: groupOperationsByTable_def canGroupOperations_def)
  have nb: "\<not> batched ?g1" by (simp add: batched_def)
  have b: "batched ?g2" by (simp add: batched_def)
  have h1: "\<forall>op\<in>set ?ops1. raw_has_definition op" by simp
  have h2: "\<forall>op\<in>set ?ops2. raw_has_definition op" by simp
  from missing_old_definition [OF h1, of "''m''"] obtain ups downs out where
    "generateAlterTableMigration ?ops1 ''m'' = Inr out"
    and "\<forall>g\<in>set (groupOperationsByTable ?ops1).
              if batched g
              then generateGroupedAlterTable (group_table g)
                     (rev (filter (\<lambda>op. \<not> lacks_old op) (group_operations g))) Down \<in> set downs
              else \<forall>op\<in>set (group_operations g). lacks_old op \<longrightarrow>
                     placeholder op \<in> set downs \<and> includes_str out (placeholder op)"
    by blast
  then have first: "\<exists>out. generateAlterTableMigration ?ops1 ''m'' = Inr out
        \<and> includes_str out (''// TODO: Add back column '' @ sq ''b'' @ '' with proper definition'')"
    unfolding g1 using nb by auto
  from missing_old_definition [OF h2, of "''m''"] obtain ups downs out where
    "downOperations (groupOperationsByTable ?ops2) = Inr downs"
    and "\<forall>g\<in>set (groupOperationsByTable ?ops2).
              if batched g
              then generateGroupedAlterTable (group_table g)
                     (rev (filter (\<lambda>op. \<not> lacks_old op) (group_operations g))) Down \<in> set downs
              else \<forall>op\<in>set (group_operations g). lacks_old op \<longrightarrow>
                     placeholder op \<in> set downs \<and> includes_str out (placeholder op)"
    by blast
  then have second: "\<exists>downs. downOperations (groupOperationsByTable ?ops2) = Inr downs
        \<and> generateGroupedAlterTable ''t'' [AddColumn ''t'' ''b'' (baseColumn Integer)] Down
            \<in> set downs"
    unfolding g2 using b by auto
  show ?thesis using first second by blast
qed

section \<open>Verification: the extractor\<close>

subsection \<open>The scanner finds the invocations\<close>
































end
